theory Spec2Isabelle
  imports Complex_Main
begin

section \<open>Values, errors and the collaborators outside the repository\<close>

text \<open>
  The module \<^verbatim>\<open>analysis_engine/plot_trading_history.py\<close> holds one function,
  \<^verbatim>\<open>plot_trading_history\<close>. It selects up to four columns of a pandas
  DataFrame, filters the rows, draws each column on an axis of one matplotlib figure and
  returns a result dictionary. The embedding follows the function line by line; pandas and
  matplotlib are modelled by the few operations the function calls, with every exception
  they raise there as a value of \<open>error\<close>.

  A cell of the dataset is a missing value (NaN, NaT, None), a number or a timestamp.
\<close>

datatype cell = NaN | Num real | Date int

datatype error =
    ParseError
  | KeyError string
  | TypeError
  | ValueError
  | IndexingError
  | IndexError
  | UnboundLocalError

text \<open>
  What the function reads from outside the module: \<^verbatim>\<open>datetime.strptime\<close> with
  the format \<^verbatim>\<open>ae_consts.COMMON_TICK_DATE_FORMAT\<close> (\<open>None\<close> when it
  raises on a malformed string), the palette \<^verbatim>\<open>ae_consts.PLOT_COLORS\<close>, the
  formatted current time of the default footnote, and the y-limits matplotlib computes
  for the data drawn on an axis.
\<close>

record externals =
  strptime :: "string \<Rightarrow> int option"
  PLOT_COLORS :: "string \<Rightarrow> string"
  now_text :: string
  auto_ylim :: "cell list \<Rightarrow> real \<times> real"

section \<open>The DataFrame\<close>

text \<open>
  A frame has its column labels in order and its rows; a row is its index label and
  the value of every column. The labels of a frame may repeat after a projection on a
  list that repeats a name; the copies of a column are equal then, so a row as a function
  of the label holds them all.
\<close>

record dataframe =
  columns :: "string list"
  rows :: "(nat \<times> (string \<Rightarrow> cell)) list"

type_synonym series = "(nat \<times> cell) list"

type_synonym bool_series = "(nat \<times> bool) list"

text \<open>\<^verbatim>\<open>df[name]\<close>: the column as a Series, KeyError when the label is absent.\<close>

definition getitem_col :: "dataframe \<Rightarrow> string \<Rightarrow> error + series" where
  "getitem_col d c =
     (if c \<in> set (columns d) then Inr (map (\<lambda>(i, r). (i, r c)) (rows d))
      else Inl (KeyError c))"

text \<open>
  \<^verbatim>\<open>series >= start_date_value\<close>: a timestamp is compared, a missing value
  compares False, and a number against a datetime raises TypeError.
\<close>

fun is_Num :: "cell \<Rightarrow> bool" where
  "is_Num (Num x) = True"
| "is_Num c = False"

fun cell_ge :: "int \<Rightarrow> cell \<Rightarrow> bool" where
  "cell_ge v (Date t) = (v \<le> t)"
| "cell_ge v c = False"

definition series_ge :: "series \<Rightarrow> int \<Rightarrow> error + bool_series" where
  "series_ge s v =
     (if list_ex (\<lambda>(i, c). is_Num c) s then Inl TypeError
      else Inr (map (\<lambda>(i, c). (i, cell_ge v c)) s))"

text \<open>
  \<^verbatim>\<open>df[mask]\<close> with a boolean Series, as pandas 2 does it. A mask with the
  frame's own index is taken as it is. Any other mask is aligned first: for every label
  of the frame, in the frame's order, the values the mask has under that label (all of
  them when the mask repeats the label); a label the mask lacks raises IndexingError.
  The key so obtained selects by position: the whole frame when every entry is True,
  else the rows at the positions of its True entries, and a position past the last row
  raises IndexError.
\<close>

definition align_mask :: "bool_series \<Rightarrow> nat list \<Rightarrow> error + bool list" where
  "align_mask m idx =
     (if list_ex (\<lambda>i. i \<notin> set (map fst m)) idx then Inl IndexingError
      else Inr (concat (map (\<lambda>i. map snd (filter (\<lambda>(j, b). j = i) m)) idx)))"

definition take_true :: "dataframe \<Rightarrow> bool list \<Rightarrow> error + dataframe" where
  "take_true d key =
     (if list_all (\<lambda>b. b) key then Inr d
      else if list_ex (\<lambda>k. key ! k \<and> length (rows d) \<le> k) [0 ..< length key]
      then Inl IndexError
      else Inr (d\<lparr>rows := map (\<lambda>k. rows d ! k) (filter (\<lambda>k. key ! k) [0 ..< length key])\<rparr>))"

definition getitem_mask :: "dataframe \<Rightarrow> bool_series \<Rightarrow> error + dataframe" where
  "getitem_mask d m =
     (if map fst m = map fst (rows d) then take_true d (map snd m)
      else
        (case align_mask m (map fst (rows d)) of
           Inl e \<Rightarrow> Inl e
         | Inr key \<Rightarrow> take_true d key))"

text \<open>
  \<^verbatim>\<open>df[names]\<close> with a list of labels: KeyError on the first absent label;
  otherwise the columns in the order of the list, a label as often as the list asks for
  it times the frame has it.
\<close>

definition project :: "dataframe \<Rightarrow> string list \<Rightarrow> dataframe" where
  "project d cs =
     \<lparr>columns = concat (map (\<lambda>c. filter (\<lambda>c'. c' = c) (columns d)) cs),
      rows = map (\<lambda>(i, r). (i, \<lambda>c. if c \<in> set cs then r c else NaN)) (rows d)\<rparr>"

definition getitem_list :: "dataframe \<Rightarrow> string list \<Rightarrow> error + dataframe" where
  "getitem_list d cs =
     (case filter (\<lambda>c. c \<notin> set (columns d)) cs of
        c # _ \<Rightarrow> Inl (KeyError c)
      | [] \<Rightarrow> Inr (project d cs))"

text \<open>\<^verbatim>\<open>df.dropna(axis=0, how='any')\<close>: the rows with no missing value.\<close>

definition dropna :: "dataframe \<Rightarrow> dataframe" where
  "dropna d = d\<lparr>rows := filter (\<lambda>(i, r). list_all (\<lambda>c. r c \<noteq> NaN) (columns d)) (rows d)\<rparr>"

section \<open>The arguments\<close>

text \<open>
  \<^verbatim>\<open>df_filter\<close> is None, a boolean Series (which has the attribute
  \<^verbatim>\<open>to_json\<close>), or any other object, such as a list of booleans, which has not.
\<close>

datatype df_filter = NoFilter | BoolSeries bool_series | BoolList "bool list"

fun hasattr_to_json :: "df_filter \<Rightarrow> bool" where
  "hasattr_to_json (BoolSeries m) = True"
| "hasattr_to_json f = False"

record args =
  title :: string
  df :: dataframe
  red :: "string option"
  red_color :: "string option"
  blue :: "string option"
  blue_color :: "string option"
  green :: "string option"
  green_color :: "string option"
  orange :: "string option"
  orange_color :: "string option"
  date_col :: string
  xlabel :: string
  ylabel :: string
  linestyle :: string
  width :: real
  height :: real
  date_format :: string
  df_filter :: df_filter
  start_date :: "string option"
  footnote_text :: "string option"
  footnote_xpos :: real
  footnote_ypos :: real
  footnote_color :: string
  footnote_fontsize :: real
  scale_y :: bool
  show_plot :: bool
  dropna_for_all :: bool
  verbose :: bool

text \<open>Python's truth value of an optional string: None and the empty string are false.\<close>

fun truthy :: "string option \<Rightarrow> bool" where
  "truthy None = False"
| "truthy (Some s) = (s \<noteq> [])"

text \<open>\<^verbatim>\<open>use_x = x_color; if not use_x: use_x = PLOT_COLORS[slot]\<close> (lines 130 to 142).\<close>

fun use_color :: "externals \<Rightarrow> string option \<Rightarrow> string \<Rightarrow> string" where
  "use_color ext None slot = PLOT_COLORS ext slot"
| "use_color ext (Some c) slot = (if c = [] then PLOT_COLORS ext slot else c)"

section \<open>Selecting the series (lines 151 to 174)\<close>

record plot_node =
  column :: string
  color :: string

text \<open>
  One \<^verbatim>\<open>if slot:\<close> block: the name is appended to \<open>column_list\<close> and a node to
  \<open>all_plots\<close>.
\<close>

fun add_slot ::
  "string option \<Rightarrow> string \<Rightarrow> string list \<times> plot_node list \<Rightarrow> string list \<times> plot_node list"
where
  "add_slot None c (column_list, all_plots) = (column_list, all_plots)"
| "add_slot (Some s) c (column_list, all_plots) =
     (if s = [] then (column_list, all_plots)
      else (column_list @ [s], all_plots @ [\<lparr>column = s, color = c\<rparr>]))"

definition select_series :: "externals \<Rightarrow> args \<Rightarrow> string list \<times> plot_node list" where
  "select_series ext a =
     add_slot (orange a) (use_color ext (orange_color a) ''orange'')
       (add_slot (green a) (use_color ext (green_color a) ''green'')
         (add_slot (blue a) (use_color ext (blue_color a) ''blue'')
           (add_slot (red a) (use_color ext (red_color a) ''red'')
             ([date_col a], []))))"

definition column_list :: "externals \<Rightarrow> args \<Rightarrow> string list" where
  "column_list ext a = fst (select_series ext a)"

definition all_plots :: "externals \<Rightarrow> args \<Rightarrow> plot_node list" where
  "all_plots ext a = snd (select_series ext a)"

section \<open>Scrubbing the frame before the plot (lines 176 to 205)\<close>

text \<open>The start date: parsed, then the rows at or after it, projected on the column list.\<close>

definition filter_start_date ::
  "externals \<Rightarrow> args \<Rightarrow> string list \<Rightarrow> error + dataframe" where
  "filter_start_date ext a cl =
     (case start_date a of
        None \<Rightarrow> Inr (df a)
      | Some s \<Rightarrow>
          if s = [] then Inr (df a)
          else
            (case strptime ext s of
               None \<Rightarrow> Inl ParseError
             | Some start_date_value \<Rightarrow>
                 (case getitem_col (df a) (date_col a) of
                    Inl e \<Rightarrow> Inl e
                  | Inr dates \<Rightarrow>
                      (case series_ge dates start_date_value of
                         Inl e \<Rightarrow> Inl e
                       | Inr at_or_after \<Rightarrow>
                           (case getitem_mask (df a) at_or_after of
                              Inl e \<Rightarrow> Inl e
                            | Inr kept \<Rightarrow> getitem_list kept cl)))))"

text \<open>
  The predicate: applied when the object has the attribute \<^verbatim>\<open>to_json\<close>, skipped
  otherwise.
\<close>

fun filter_predicate :: "df_filter \<Rightarrow> dataframe \<Rightarrow> string list \<Rightarrow> error + dataframe" where
  "filter_predicate (BoolSeries m) use_df cl =
     (case getitem_mask use_df m of
        Inl e \<Rightarrow> Inl e
      | Inr kept \<Rightarrow> getitem_list kept cl)"
| "filter_predicate f use_df cl = Inr use_df"

definition scrub_df :: "externals \<Rightarrow> args \<Rightarrow> string list \<Rightarrow> error + dataframe" where
  "scrub_df ext a cl =
     (case filter_start_date ext a cl of
        Inl e \<Rightarrow> Inl e
      | Inr use_df \<Rightarrow>
          (case filter_predicate (df_filter a) use_df cl of
             Inl e \<Rightarrow> Inl e
           | Inr use_df' \<Rightarrow>
               Inr (if dropna_for_all a then dropna use_df' else use_df')))"

section \<open>The matplotlib state\<close>

text \<open>
  An artist drawn for one column: its legend label (the column's name), its colour and
  its data. An axis keeps its lines (what \<^verbatim>\<open>get_lines()\<close> returns), its bars,
  its y-limits, its grid and tick settings and its legend, as handles and labels.
\<close>

record line2d =
  get_label :: string
  line_color :: string
  xdata :: "cell list"
  ydata :: "cell list"

record axes =
  ax_lines :: "line2d list"
  ax_bars :: "line2d list"
  ylim :: "real \<times> real"
  xgrid_major :: bool
  xgrid_minor :: bool
  ygrid_major :: bool
  fmt_xdata :: "string option"
  minor_formatter :: "string option"
  yticklabels_hidden :: bool
  ax_legend :: "(line2d list \<times> string list) option"
  ax_title :: string
  ax_xlabel :: string
  ax_ylabel :: string

record footnote =
  fn_text :: string
  fn_xpos :: real
  fn_ypos :: real
  fn_color :: string
  fn_fontsize :: real

text \<open>
  The state of \<^verbatim>\<open>matplotlib.pyplot\<close>, global to the process: the number of
  figures made so far (the current figure's handle), the axes of the current figure in
  creation order (an axis handle is its position), the current axis, and how often
  \<^verbatim>\<open>plt.show()\<close> and \<^verbatim>\<open>plt.plot()\<close> were called.
\<close>

record pyplot =
  fig_count :: nat
  fig_axes :: "axes list"
  gca :: nat
  figsize :: "real \<times> real"
  fonts_set :: bool
  footnotes :: "footnote list"
  autofmt_xdate :: bool
  tight_layout :: bool
  show_calls :: nat
  plot_calls :: nat

definition new_axes :: axes where
  "new_axes =
     \<lparr>ax_lines = [], ax_bars = [], ylim = (0, 1), xgrid_major = False, xgrid_minor = False,
      ygrid_major = False, fmt_xdata = None, minor_formatter = None,
      yticklabels_hidden = False, ax_legend = None, ax_title = [], ax_xlabel = [],
      ax_ylabel = []\<rparr>"

definition upd_axes :: "nat \<Rightarrow> (axes \<Rightarrow> axes) \<Rightarrow> pyplot \<Rightarrow> pyplot" where
  "upd_axes i f p = p\<lparr>fig_axes := (fig_axes p)[i := f (fig_axes p ! i)]\<rparr>"

text \<open>
  \<^verbatim>\<open>plt.subplots(...)\<close>: a new figure with one axis, which is the current one.
  The result is the axis handle; the figure's handle is the new \<open>fig_count\<close>.
\<close>

definition subplots :: "real \<Rightarrow> real \<Rightarrow> pyplot \<Rightarrow> nat \<times> pyplot" where
  "subplots w h p =
     (0, p\<lparr>fig_count := Suc (fig_count p), fig_axes := [new_axes], gca := 0,
            figsize := (w, h), footnotes := [], autofmt_xdate := False,
            tight_layout := False\<rparr>)"

text \<open>\<^verbatim>\<open>ax.twinx()\<close>: one more axis on the figure, current from then on.\<close>

definition twinx :: "pyplot \<Rightarrow> nat \<times> pyplot" where
  "twinx p =
     (length (fig_axes p),
      p\<lparr>fig_axes := fig_axes p @ [new_axes], gca := length (fig_axes p)\<rparr>)"

text \<open>
  \<^verbatim>\<open>frame.plot(x=date_col, ax=use_ax, color=hex_color, ...)\<close>: pandas raises
  ValueError unless \<open>x\<close> names one column of the frame; every other column becomes an
  artist labelled with the column's name, a line or (\<^verbatim>\<open>kind='bar'\<close>) a bar;
  the axis is rescaled to its data and gets the legend pandas draws.
\<close>

definition draw :: "dataframe \<Rightarrow> string \<Rightarrow> string \<Rightarrow> line2d list" where
  "draw d x c =
     map (\<lambda>y. \<lparr>get_label = y, line_color = c,
                xdata = map (\<lambda>(i, r). r x) (rows d),
                ydata = map (\<lambda>(i, r). r y) (rows d)\<rparr>)
       (filter (\<lambda>y. y \<noteq> x) (columns d))"

definition drawn_on :: "axes \<Rightarrow> line2d list" where
  "drawn_on A = ax_lines A @ ax_bars A"

definition autoscale :: "externals \<Rightarrow> axes \<Rightarrow> axes" where
  "autoscale ext A = A\<lparr>ylim := auto_ylim ext (concat (map ydata (drawn_on A)))\<rparr>"

definition add_artists :: "bool \<Rightarrow> line2d list \<Rightarrow> axes \<Rightarrow> axes" where
  "add_artists bar arts A =
     (if bar then A\<lparr>ax_bars := ax_bars A @ arts\<rparr> else A\<lparr>ax_lines := ax_lines A @ arts\<rparr>)"

definition plot_on ::
  "externals \<Rightarrow> dataframe \<Rightarrow> string \<Rightarrow> bool \<Rightarrow> string \<Rightarrow> axes \<Rightarrow> axes" where
  "plot_on ext d x bar c A =
     (autoscale ext (add_artists bar (draw d x c) A))
       \<lparr>ax_legend := Some (draw d x c, map get_label (draw d x c))\<rparr>"

definition frame_plot ::
  "externals \<Rightarrow> dataframe \<Rightarrow> string \<Rightarrow> bool \<Rightarrow> string \<Rightarrow> nat \<Rightarrow> pyplot \<Rightarrow> error + pyplot"
where
  "frame_plot ext d x bar c ax p =
     (if length (filter (\<lambda>c'. c' = x) (columns d)) \<noteq> 1 then Inl ValueError
      else Inr (upd_axes ax (plot_on ext d x bar c) p))"

section \<open>Composing the axes (lines 207 to 269)\<close>

text \<open>The locals the loop over \<open>all_plots\<close> writes.\<close>

record loop_state =
  plt :: pyplot
  all_axes :: "nat list"
  use_ax :: "nat option"
  hex_color :: string

text \<open>
  \<^verbatim>\<open>ax.set_ylim([bottom, top])\<close> raises ValueError for a limit that is not
  finite. A limit is a double: a product is taken for its exact value (rounding is left
  out) unless it rounds to infinity, which it does from \<^verbatim>\<open>2^1024 - 2^970\<close> on,
  half way from the largest double to \<^verbatim>\<open>2^1024\<close>.
\<close>

definition float_overflow :: "real \<Rightarrow> bool" where
  "float_overflow x = (2 ^ 1024 - 2 ^ 970 \<le> \<bar>x\<bar>)"

definition set_ylim :: "real \<times> real \<Rightarrow> axes \<Rightarrow> error + axes" where
  "set_ylim limits A =
     (if float_overflow (fst limits) \<or> float_overflow (snd limits) then Inl ValueError
      else Inr (A\<lparr>ylim := limits\<rparr>))"

text \<open>The secondary axis (\<^verbatim>\<open>idx > 0\<close>, lines 253 to 259).\<close>

definition style_secondary :: "args \<Rightarrow> axes \<Rightarrow> error + axes" where
  "style_secondary a A =
     (case (if scale_y a then set_ylim (0, snd (ylim A) * 3) A else Inr A) of
        Inl e \<Rightarrow> Inl e
      | Inr A' \<Rightarrow>
          Inr (A'\<lparr>fmt_xdata := Some (date_format a), xgrid_major := False,
                  xgrid_minor := False, ygrid_major := False, yticklabels_hidden := True\<rparr>))"

text \<open>
  The primary axis (lines 261 to 268); \<^verbatim>\<open>plt.grid(True)\<close> acts on the current
  axis.
\<close>

definition style_primary :: "args \<Rightarrow> nat \<Rightarrow> pyplot \<Rightarrow> pyplot" where
  "style_primary a ax p =
     upd_axes (gca p) (\<lambda>A. A\<lparr>xgrid_major := True, ygrid_major := True\<rparr>)
       (upd_axes ax
          (\<lambda>A. A\<lparr>xgrid_minor := True, fmt_xdata := Some (date_format a),
                  minor_formatter := Some (date_format a)\<rparr>) p)"

text \<open>One pass of the loop body for \<open>(idx, node)\<close>; \<open>ax\<close> is the primary axis.\<close>

definition plot_body ::
  "externals \<Rightarrow> args \<Rightarrow> dataframe \<Rightarrow> nat \<Rightarrow> nat \<Rightarrow> plot_node \<Rightarrow> loop_state \<Rightarrow>
     error + loop_state"
where
  "plot_body ext a use_df ax idx node s =
     (case (if idx > 0 then twinx (plt s) else (ax, plt s)) of
        (u, p1) \<Rightarrow>
          (case getitem_list use_df [date_col a, column node] of
             Inl e \<Rightarrow> Inl e
           | Inr frame \<Rightarrow>
               (case frame_plot ext frame (date_col a) (linestyle a \<noteq> ''-'') (color node) u p1 of
                  Inl e \<Rightarrow> Inl e
                | Inr p2 \<Rightarrow>
                    (case (if idx > 0
                           then (case style_secondary a (fig_axes p2 ! u) of
                                   Inl e \<Rightarrow> Inl e
                                 | Inr A \<Rightarrow> Inr (upd_axes u (\<lambda>_. A) p2))
                           else Inr (style_primary a u p2)) of
                       Inl e \<Rightarrow> Inl e
                     | Inr p3 \<Rightarrow>
                         Inr \<lparr>plt = p3,
                              all_axes = all_axes s @ [u],
                              use_ax = Some u,
                              hex_color = color node\<rparr>))))"

fun plot_loop ::
  "externals \<Rightarrow> args \<Rightarrow> dataframe \<Rightarrow> nat \<Rightarrow> nat \<Rightarrow> plot_node list \<Rightarrow> loop_state \<Rightarrow>
     error + loop_state"
where
  "plot_loop ext a use_df ax idx [] s = Inr s"
| "plot_loop ext a use_df ax idx (node # nodes) s =
     (case plot_body ext a use_df ax idx node s of
        Inl e \<Rightarrow> Inl e
      | Inr s' \<Rightarrow> plot_loop ext a use_df ax (Suc idx) nodes s')"

section \<open>The legend, the result record and the display (lines 271 to 320)\<close>

text \<open>
  \<^verbatim>\<open>plt.gca().get_legend_handles_labels()\<close>: the artists of the current axis whose
  label does not start with an underscore, and their labels.
\<close>

definition get_legend_handles_labels :: "axes \<Rightarrow> line2d list \<times> string list" where
  "get_legend_handles_labels A =
     (let hs = filter (\<lambda>h. get_label h \<noteq> [] \<and> hd (get_label h) \<noteq> CHR ''_'') (drawn_on A)
      in (hs, map get_label hs))"

text \<open>
  The loop of lines 272 to 276 over \<^verbatim>\<open>zip(handles, labels)\<close>: a pair is kept
  when its label is not yet in \<open>newLabels\<close>.
\<close>

fun dedup_labels ::
  "(line2d \<times> string) list \<Rightarrow> string list \<times> line2d list \<Rightarrow> string list \<times> line2d list"
where
  "dedup_labels [] (newLabels, newHandles) = (newLabels, newHandles)"
| "dedup_labels ((handle, label) # rest) (newLabels, newHandles) =
     (if label \<notin> set newLabels
      then dedup_labels rest (newLabels @ [label], newHandles @ [handle])
      else dedup_labels rest (newLabels, newHandles))"

datatype handle = AxesHandle nat | FigureHandle nat

text \<open>
  The dictionary \<open>rec\<close>: a key is bound to None or to a handle. The key of the loop
  is \<^verbatim>\<open>'ax{}'.format(idx + 1)\<close>.
\<close>

type_synonym rec = "string \<rightharpoonup> handle option"

definition rec_init :: rec where
  "rec_init =
     [''ax1'' \<mapsto> None, ''ax2'' \<mapsto> None, ''ax3'' \<mapsto> None, ''ax4'' \<mapsto> None,
      ''fig'' \<mapsto> None]"

fun str_nat :: "nat \<Rightarrow> string" where
  "str_nat n =
     (if n < 10 then [''0123456789'' ! n]
      else str_nat (n div 10) @ [''0123456789'' ! (n mod 10)])"

declare str_nat.simps [simp del]

definition ax_key :: "nat \<Rightarrow> string" where
  "ax_key idx = ''ax'' @ str_nat (idx + 1)"

text \<open>
  The loop of lines 278 to 281 over \<^verbatim>\<open>enumerate(all_axes)\<close>. The lines of
  \<open>cur_ax\<close> are collected; the dictionary entry is bound to \<open>use_ax\<close>, the local the
  plot loop left behind (\<open>u\<close>, here \<open>Some last_ax\<close>), which is unbound when that loop
  never ran.
\<close>

fun collect_lines ::
  "pyplot \<Rightarrow> nat option \<Rightarrow> nat \<Rightarrow> nat list \<Rightarrow> line2d list \<times> rec \<Rightarrow> error + line2d list \<times> rec"
where
  "collect_lines p u idx [] (lines, r) = Inr (lines, r)"
| "collect_lines p u idx (cur_ax # rest) (lines, r) =
     (case u of
        None \<Rightarrow> Inl UnboundLocalError
      | Some last_ax \<Rightarrow>
          collect_lines p u (Suc idx) rest
            (lines @ ax_lines (fig_axes p ! cur_ax),
             r(ax_key idx \<mapsto> Some (AxesHandle last_ax))))"

datatype status = SUCCESS | FAILED | NOT_RUN

record result =
  status :: status
  err :: "error option"
  rec :: rec

text \<open>
  Modelled from the spec: \<^verbatim>\<open>analysis_engine.build_result.build_result\<close> is not
  among the sources; the spec calls it the generic envelope constructor of a status, an
  optional error and a payload.
\<close>

definition build_result :: "status \<Rightarrow> error option \<Rightarrow> rec \<Rightarrow> result" where
  "build_result s e r = \<lparr>status = s, err = e, rec = r\<rparr>"

text \<open>\<^verbatim>\<open>use_footnote\<close> (lines 144 to 149).\<close>

fun use_footnote :: "externals \<Rightarrow> string option \<Rightarrow> string" where
  "use_footnote ext None = ''algotraders - '' @ now_text ext"
| "use_footnote ext (Some t) = (if t = [] then ''algotraders - '' @ now_text ext else t)"

definition plt_show :: "pyplot \<Rightarrow> pyplot" where
  "plt_show p = p\<lparr>show_calls := Suc (show_calls p)\<rparr>"

definition plt_plot :: "pyplot \<Rightarrow> pyplot" where
  "plt_plot p = p\<lparr>plot_calls := Suc (plot_calls p)\<rparr>"

text \<open>
  Lines 286 to 311: the legend of the primary axis from \<open>lines\<close>, the labels on the
  current axis, the title, the footnote, and the display.
\<close>

definition decorate :: "externals \<Rightarrow> args \<Rightarrow> nat \<Rightarrow> line2d list \<Rightarrow> pyplot \<Rightarrow> pyplot" where
  "decorate ext a ax lines p0 =
     (let p1 = upd_axes ax (\<lambda>A. A\<lparr>ax_legend := Some (lines, map get_label lines)\<rparr>) p0;
          p2 = p1\<lparr>autofmt_xdate := True\<rparr>;
          p3 = upd_axes (gca p2) (\<lambda>A. A\<lparr>ax_xlabel := xlabel a, ax_ylabel := ylabel a\<rparr>) p2;
          p4 = upd_axes ax (\<lambda>A. A\<lparr>ax_title := title a\<rparr>) p3;
          p5 = p4\<lparr>footnotes := footnotes p4 @
                   [\<lparr>fn_text = use_footnote ext (footnote_text a),
                     fn_xpos = footnote_xpos a, fn_ypos = footnote_ypos a,
                     fn_color = footnote_color a, fn_fontsize = footnote_fontsize a\<rparr>]\<rparr>;
          p6 = p5\<lparr>tight_layout := True\<rparr>;
          p7 = plt_show p6
      in if show_plot a then plt_show p7 else plt_plot p7)"

section \<open>The function\<close>

text \<open>
  \<open>plot_trading_history\<close> from the state of pyplot it is called in: the exception it
  raises, or the result it returns with the state it leaves. The log calls under
  \<open>verbose\<close> write no state the function reads and are left out. The first
  \<open>build_result\<close> (line 122) binds \<open>result\<close> to a NOT_RUN record that line 315
  rebinds before the only \<^verbatim>\<open>return\<close>.
\<close>

definition plot_trading_history ::
  "externals \<Rightarrow> args \<Rightarrow> pyplot \<Rightarrow> error + result \<times> pyplot" where
  "plot_trading_history ext a p =
     (case select_series ext a of
        (cl, nodes) \<Rightarrow>
          (case scrub_df ext a cl of
             Inl e \<Rightarrow> Inl e
           | Inr use_df \<Rightarrow>
               (case subplots (width a) (height a) (p\<lparr>fonts_set := True\<rparr>) of
                  (ax, p1) \<Rightarrow>
                    (case plot_loop ext a use_df ax 0 nodes
                            \<lparr>plt = p1, all_axes = [], use_ax = None,
                             hex_color = PLOT_COLORS ext ''blue''\<rparr> of
                       Inl e \<Rightarrow> Inl e
                     | Inr s \<Rightarrow>
                         (case get_legend_handles_labels (fig_axes (plt s) ! gca (plt s)) of
                            (handles, labels) \<Rightarrow>
                              (case dedup_labels (zip handles labels) ([], []) of
                                 (newLabels, newHandles) \<Rightarrow>
                                   (case collect_lines (plt s) (use_ax s) 0 (all_axes s)
                                           ([], rec_init) of
                                      Inl e \<Rightarrow> Inl e
                                    | Inr (lines, r) \<Rightarrow>
                                        Inr (build_result SUCCESS None
                                               (r(''fig'' \<mapsto> Some (FigureHandle (fig_count (plt s))))),
                                             decorate ext a ax lines (plt s)))))))))"

section \<open>Sample inputs\<close>

text \<open>
  The collaborators at which the theorems below are evaluated: a table of the start
  dates used (timestamps count days from 2020-01-01; any other string is malformed for
  it), a palette, and limits that span the numbers drawn.
\<close>

fun nums :: "cell list \<Rightarrow> real list" where
  "nums [] = []"
| "nums (Num x # cs) = x # nums cs"
| "nums (c # cs) = nums cs"

definition span_ylim :: "cell list \<Rightarrow> real \<times> real" where
  "span_ylim ys = (case nums ys of [] \<Rightarrow> (0, 1) | x # xs \<Rightarrow> (fold min xs x, fold max xs x))"

definition sample_ext :: externals where
  "sample_ext =
     \<lparr>strptime =
        map_of [(''2020-01-01 00:00:00'', 0), (''2020-01-03 00:00:00'', 2),
                (''2020-01-05 00:00:00'', 4)],
      PLOT_COLORS = (\<lambda>slot. ''#'' @ slot),
      now_text = ''2020-01-10 00:00:00'',
      auto_ylim = span_ylim\<rparr>"

definition sample_row :: "nat \<Rightarrow> int \<Rightarrow> real \<Rightarrow> real \<Rightarrow> nat \<times> (string \<Rightarrow> cell)" where
  "sample_row i d e c =
     (i, \<lambda>k. if k = ''date'' then Date d else if k = ''equity'' then Num e
              else if k = ''cash'' then Num c else NaN)"

definition sample_df :: dataframe where
  "sample_df =
     \<lparr>columns = [''date'', ''equity'', ''cash''],
      rows = [sample_row 0 0 100 50, sample_row 1 3 110 (-40), sample_row 2 6 120 30]\<rparr>"

text \<open>The defaults of the signature, with \<open>equity\<close> in the red slot.\<close>

definition sample_args :: args where
  "sample_args =
     \<lparr>title = ''Trading History'', df = sample_df,
      red = Some ''equity'', red_color = None, blue = None, blue_color = None,
      green = None, green_color = None, orange = None, orange_color = None,
      date_col = ''date'', xlabel = ''Date'', ylabel = ''Algo Values'', linestyle = ''-'',
      width = 8, height = 6, date_format = ''%d'' @ [CHR 0x0A] @ ''%b'',
      df_filter = NoFilter, start_date = None, footnote_text = None,
      footnote_xpos = 7 / 10, footnote_ypos = 1 / 100, footnote_color = ''#888888'',
      footnote_fontsize = 8, scale_y = False, show_plot = True, dropna_for_all = False,
      verbose = False\<rparr>"

definition fresh_pyplot :: pyplot where
  "fresh_pyplot =
     \<lparr>fig_count = 0, fig_axes = [], gca = 0, figsize = (0, 0), fonts_set = False,
      footnotes = [], autofmt_xdate = False, tight_layout = False, show_calls = 0,
      plot_calls = 0\<rparr>"

text \<open>What a caller reads off an outcome.\<close>

definition returned :: "error + result \<times> pyplot \<Rightarrow> result option" where
  "returned out = (case out of Inl e \<Rightarrow> None | Inr (res, p) \<Rightarrow> Some res)"

definition raised :: "error + result \<times> pyplot \<Rightarrow> error option" where
  "raised out = (case out of Inl e \<Rightarrow> Some e | Inr x \<Rightarrow> None)"

definition final_pyplot :: "error + result \<times> pyplot \<Rightarrow> pyplot option" where
  "final_pyplot out = (case out of Inl e \<Rightarrow> None | Inr (res, p) \<Rightarrow> Some p)"

text \<open>
  The names the caller selected, as the spec counts them: the non-empty slots in the
  order red, blue, green, orange.
\<close>

definition slot_names :: "args \<Rightarrow> string list" where
  "slot_names a =
     concat (map (\<lambda>s. case s of None \<Rightarrow> [] | Some n \<Rightarrow> if n = [] then [] else [n])
       [red a, blue a, green a, orange a])"

text \<open>Every row of the frame has a timestamp at or after \<open>t\<close> in column \<open>c\<close>.\<close>

definition from_date :: "int \<Rightarrow> string \<Rightarrow> dataframe \<Rightarrow> bool" where
  "from_date t c d = list_all (\<lambda>(i, r). cell_ge t (r c)) (rows d)"

text \<open>A call with a start date, a Series predicate and the drop of incomplete rows.\<close>

definition sample_filtered :: args where
  "sample_filtered =
     sample_args\<lparr>blue := Some ''cash'', start_date := Some ''2020-01-03 00:00:00'',
                 df_filter := BoolSeries [(0, True), (1, False), (2, True)],
                 dropna_for_all := True\<rparr>"

text \<open>
  The axes the plot loop leaves, in closed form: what one plot draws on a new axis, the
  primary axis after its styling, and the list of all axes for a list of series.
\<close>

definition node_axis :: "externals \<Rightarrow> args \<Rightarrow> dataframe \<Rightarrow> plot_node \<Rightarrow> axes" where
  "node_axis ext a u node =
     plot_on ext (project u [date_col a, column node]) (date_col a) (linestyle a \<noteq> ''-'')
       (color node) new_axes"

definition primary_axis :: "externals \<Rightarrow> args \<Rightarrow> dataframe \<Rightarrow> plot_node \<Rightarrow> axes" where
  "primary_axis ext a u node =
     (node_axis ext a u node)
       \<lparr>xgrid_minor := True, fmt_xdata := Some (date_format a),
        minor_formatter := Some (date_format a), xgrid_major := True, ygrid_major := True\<rparr>"

definition styled_twin :: "args \<Rightarrow> axes \<Rightarrow> axes" where
  "styled_twin a A =
     (if scale_y a then A\<lparr>ylim := (0, snd (ylim A) * 3)\<rparr> else A)
       \<lparr>fmt_xdata := Some (date_format a), xgrid_major := False, xgrid_minor := False,
        ygrid_major := False, yticklabels_hidden := True\<rparr>"

fun composed :: "externals \<Rightarrow> args \<Rightarrow> dataframe \<Rightarrow> plot_node list \<Rightarrow> axes list" where
  "composed ext a u [] = [new_axes]"
| "composed ext a u (n # ns) =
     primary_axis ext a u n # map (\<lambda>n. styled_twin a (node_axis ext a u n)) ns"

text \<open>A series for which neither the projection nor the plot raises.\<close>

definition node_ok :: "args \<Rightarrow> dataframe \<Rightarrow> plot_node \<Rightarrow> bool" where
  "node_ok a u node =
     (date_col a \<in> set (columns u) \<and> column node \<in> set (columns u) \<and>
      length (filter (\<lambda>c'. c' = date_col a)
                (columns (project u [date_col a, column node]))) = 1)"

text \<open>
  A series whose twin axis can be rescaled, and a list of series the plot loop gets
  through: the first goes to the primary axis, the others to twin axes.
\<close>

definition twin_ok :: "externals \<Rightarrow> args \<Rightarrow> dataframe \<Rightarrow> plot_node \<Rightarrow> bool" where
  "twin_ok ext a u node =
     (\<not> (scale_y a \<and> float_overflow (snd (ylim (node_axis ext a u node)) * 3)))"

fun loop_ok :: "externals \<Rightarrow> args \<Rightarrow> dataframe \<Rightarrow> plot_node list \<Rightarrow> bool" where
  "loop_ok ext a u [] = True"
| "loop_ok ext a u (n # ns) =
     (node_ok a u n \<and> list_all (\<lambda>n. node_ok a u n \<and> twin_ok ext a u n) ns)"

text \<open>
  A dataset whose \<open>cash\<close> column reaches \<^verbatim>\<open>2^1023\<close>, and a predicate that has
  the label 2 twice.
\<close>

definition sample_huge :: args where
  "sample_huge =
     sample_args\<lparr>df := \<lparr>columns = [''date'', ''equity'', ''cash''],
                        rows = [sample_row 0 0 100 1, sample_row 1 3 110 (2 ^ 1023)]\<rparr>,
                 blue := Some ''cash''\<rparr>"

definition repeating_mask :: bool_series where
  "repeating_mask = [(0, True), (1, True), (2, True), (2, False)]"

text \<open>Two series: \<open>equity\<close> on the primary axis, \<open>cash\<close> on a twin axis.\<close>

definition sample_twin :: args where
  "sample_twin = sample_args\<lparr>blue := Some ''cash''\<rparr>"

section \<open>Evaluation at the sample inputs\<close>

lemmas run_defs = plot_trading_history_def select_series_def scrub_df_def filter_start_date_def
  subplots_def plot_body_def twinx_def getitem_list_def project_def frame_plot_def plot_on_def
  upd_axes_def
  draw_def autoscale_def add_artists_def drawn_on_def style_primary_def style_secondary_def set_ylim_def
  float_overflow_def
  get_legend_handles_labels_def rec_init_def ax_key_def build_result_def decorate_def
  plt_show_def plt_plot_def new_axes_def getitem_col_def series_ge_def getitem_mask_def
  align_mask_def take_true_def dropna_def
  sample_ext_def sample_args_def sample_df_def sample_row_def fresh_pyplot_def span_ylim_def
  returned_def raised_def final_pyplot_def column_list_def all_plots_def slot_names_def
  sample_filtered_def sample_twin_def sample_huge_def repeating_mask_def

section \<open>The column list\<close>

lemma column_list_slots: "column_list ext a = date_col a # slot_names a"
  by (cases "red a"; cases "blue a"; cases "green a"; cases "orange a")
     (simp_all add: column_list_def select_series_def slot_names_def)

lemma all_plots_columns: "map column (all_plots ext a) = slot_names a"
  by (cases "red a"; cases "blue a"; cases "green a"; cases "orange a")
     (simp_all add: all_plots_def select_series_def slot_names_def)

lemma distinct_count_one: "distinct xs \<Longrightarrow> x \<in> set xs \<Longrightarrow> count_list xs x = 1"
  by (induction xs) auto

text \<open>
  Claim C5, as stated, fails: the list is never deduplicated. With \<open>equity\<close> in the red
  and in the blue slot the column list is \<open>date, equity, equity\<close>.
\<close>

theorem column_list_duplicates:
  "column_list sample_ext (sample_args\<lparr>blue := Some ''equity''\<rparr>) = [''date'', ''equity'', ''equity'']
   \<and> \<not> distinct (column_list sample_ext (sample_args\<lparr>blue := Some ''equity''\<rparr>))"
  by (simp add: run_defs)

text \<open>
  Claim C5, amended: the column list is the date column followed by the non-empty slot
  names in the order red, blue, green, orange, so it begins with the date column; when
  the date column and the selected names are pairwise different, the list has no
  duplicates and holds each selected name exactly once.
\<close>

theorem column_list_amended:
  "hd (column_list ext a) = date_col a \<and>
   column_list ext a = date_col a # slot_names a \<and>
   (distinct (date_col a # slot_names a) \<longrightarrow>
      distinct (column_list ext a) \<and>
      list_all (\<lambda>c. count_list (column_list ext a) c = 1) (slot_names a))"
proof -
  have eq: "column_list ext a = date_col a # slot_names a"
    by (rule column_list_slots)
  have "list_all (\<lambda>c. count_list (column_list ext a) c = 1) (slot_names a)"
    if d: "distinct (date_col a # slot_names a)"
    unfolding list_all_iff
  proof
    fix c assume "c \<in> set (slot_names a)"
    then have "c \<in> set (date_col a # slot_names a)" by simp
    from distinct_count_one [OF d this] show "count_list (column_list ext a) c = 1"
      by (simp only: eq)
  qed
  then show ?thesis using eq by simp
qed

theorem column_list_amended_witness:
  "distinct (date_col (sample_args\<lparr>blue := Some ''cash''\<rparr>) # slot_names (sample_args\<lparr>blue := Some ''cash''\<rparr>))
   \<and> column_list sample_ext (sample_args\<lparr>blue := Some ''cash''\<rparr>) = [''date'', ''equity'', ''cash'']
   \<and> distinct (column_list sample_ext (sample_args\<lparr>blue := Some ''cash''\<rparr>))
   \<and> count_list (column_list sample_ext (sample_args\<lparr>blue := Some ''cash''\<rparr>)) ''cash'' = 1"
proof -
  have d: "distinct (date_col (sample_args\<lparr>blue := Some ''cash''\<rparr>) # slot_names (sample_args\<lparr>blue := Some ''cash''\<rparr>))"
    by (simp add: slot_names_def sample_args_def)
  have s: "slot_names (sample_args\<lparr>blue := Some ''cash''\<rparr>) = [''equity'', ''cash'']"
    by (simp add: slot_names_def sample_args_def)
  have dc: "date_col (sample_args\<lparr>blue := Some ''cash''\<rparr>) = ''date''"
    by (simp add: sample_args_def)
  from column_list_amended [of sample_ext "sample_args\<lparr>blue := Some ''cash''\<rparr>"] d
  show ?thesis
    by (simp add: s dc)
qed

section \<open>The returned envelope\<close>

lemma plot_body_fig_count:
  "plot_body ext a u ax idx node s = Inr s' \<Longrightarrow> fig_count (plt s') = fig_count (plt s)"
  by (auto simp: plot_body_def twinx_def frame_plot_def upd_axes_def style_primary_def
           split: if_splits sum.splits prod.splits)

lemma plot_loop_fig_count:
  "plot_loop ext a u ax idx nodes s = Inr s' \<Longrightarrow> fig_count (plt s') = fig_count (plt s)"
proof (induction nodes arbitrary: idx s)
  case Nil
  then show ?case by simp
next
  case (Cons node nodes)
  then show ?case
    by (auto split: sum.splits dest!: plot_body_fig_count)
qed

text \<open>
  Claim C9: the only \<^verbatim>\<open>return\<close> follows the second \<open>build_result\<close>, so a returned
  envelope has status SUCCESS (never NOT_RUN or FAILED), no error, and the handle of the
  figure the call made under \<open>fig\<close>.
\<close>

theorem returned_envelope_is_success:
  assumes "plot_trading_history ext a p = Inr (res, p')"
  shows "status res = SUCCESS \<and> status res \<noteq> NOT_RUN \<and> status res \<noteq> FAILED \<and>
         err res = None \<and>
         rec res ''fig'' = Some (Some (FigureHandle (Suc (fig_count p)))) \<and>
         fig_count p' = Suc (fig_count p)"
proof -
  from assms obtain cl nodes use_df s lines r where
    loop: "plot_loop ext a use_df 0 0 nodes
             \<lparr>plt = snd (subplots (width a) (height a) (p\<lparr>fonts_set := True\<rparr>)),
              all_axes = [], use_ax = None, hex_color = PLOT_COLORS ext ''blue''\<rparr> = Inr s"
    and res: "res = build_result SUCCESS None
                (r(''fig'' \<mapsto> Some (FigureHandle (fig_count (plt s)))))"
    and p': "p' = decorate ext a 0 lines (plt s)"
    by (auto simp: plot_trading_history_def subplots_def split: prod.splits sum.splits)
  from plot_loop_fig_count [OF loop] have fc: "fig_count (plt s) = Suc (fig_count p)"
    by (simp add: subplots_def)
  have "fig_count p' = fig_count (plt s)"
    by (simp add: p' decorate_def upd_axes_def plt_show_def plt_plot_def Let_def)
  with fc res show ?thesis
    by (simp add: build_result_def)
qed

theorem returned_envelope_is_success_witness:
  "map_option (\<lambda>r. (status r, err r, rec r ''fig''))
     (returned (plot_trading_history sample_ext sample_args fresh_pyplot))
   = Some (SUCCESS, None, Some (Some (FigureHandle 1)))"
proof -
  obtain res p' where run: "plot_trading_history sample_ext sample_args fresh_pyplot = Inr (res, p')"
    by (cases "plot_trading_history sample_ext sample_args fresh_pyplot")
       (simp_all add: run_defs str_nat.simps)
  have "fig_count fresh_pyplot = 0"
    by (simp add: fresh_pyplot_def)
  with returned_envelope_is_success [OF run] show ?thesis
    by (simp add: run returned_def)
qed

section \<open>The row predicate\<close>

lemma filter_predicate_skipped:
  "\<not> hasattr_to_json f \<Longrightarrow> filter_predicate f u cl = Inr u"
  by (cases f) simp_all

lemma style_secondary_df_filter [simp]:
  "style_secondary (a\<lparr>df_filter := f\<rparr>) = style_secondary a"
  by (simp add: fun_eq_iff style_secondary_def split: sum.splits)

lemma style_primary_df_filter [simp]:
  "style_primary (a\<lparr>df_filter := f\<rparr>) = style_primary a"
  by (simp add: fun_eq_iff style_primary_def)

lemma plot_body_df_filter [simp]:
  "plot_body ext (a\<lparr>df_filter := f\<rparr>) = plot_body ext a"
  by (auto simp: fun_eq_iff plot_body_def split: sum.splits prod.splits)

lemma plot_loop_df_filter [simp]:
  "plot_loop ext (a\<lparr>df_filter := f\<rparr>) u ax idx nodes s = plot_loop ext a u ax idx nodes s"
  by (induction nodes arbitrary: idx s) (simp_all split: sum.splits)

lemma filter_start_date_df_filter [simp]:
  "filter_start_date ext (a\<lparr>df_filter := f\<rparr>) = filter_start_date ext a"
  by (auto simp: fun_eq_iff filter_start_date_def split: sum.splits option.splits)

lemma decorate_df_filter [simp]:
  "decorate ext (a\<lparr>df_filter := f\<rparr>) = decorate ext a"
  by (simp add: fun_eq_iff decorate_def)

text \<open>
  Claim C8: the predicate step runs under \<^verbatim>\<open>hasattr(df_filter, 'to_json')\<close>. For a
  predicate without that attribute the step returns the frame it was given, and the
  whole call behaves as if no predicate had been passed.
\<close>

theorem predicate_without_to_json_is_skipped:
  assumes "\<not> hasattr_to_json (df_filter a)"
  shows "filter_predicate (df_filter a) use_df cl = Inr use_df \<and>
         scrub_df ext a cl = scrub_df ext (a\<lparr>df_filter := NoFilter\<rparr>) cl \<and>
         plot_trading_history ext a p = plot_trading_history ext (a\<lparr>df_filter := NoFilter\<rparr>) p"
proof -
  have skip: "\<And>u. filter_predicate (df_filter a) u cl' = Inr u" for cl'
    using assms by (rule filter_predicate_skipped)
  have scrub: "scrub_df ext a cl' = scrub_df ext (a\<lparr>df_filter := NoFilter\<rparr>) cl'" for cl'
    by (auto simp: scrub_df_def skip split: sum.splits)
  have "plot_trading_history ext a p = plot_trading_history ext (a\<lparr>df_filter := NoFilter\<rparr>) p"
    by (auto simp: plot_trading_history_def scrub [symmetric] select_series_def
             split: sum.splits prod.splits)
  with skip scrub show ?thesis by simp
qed

theorem predicate_without_to_json_is_skipped_witness:
  "\<not> hasattr_to_json (df_filter (sample_args\<lparr>df_filter := BoolList [False, False, False]\<rparr>)) \<and>
   filter_predicate (BoolList [False, False, False]) sample_df [''date'', ''equity''] = Inr sample_df \<and>
   plot_trading_history sample_ext (sample_args\<lparr>df_filter := BoolList [False, False, False]\<rparr>) fresh_pyplot
     = plot_trading_history sample_ext (sample_args\<lparr>df_filter := NoFilter\<rparr>) fresh_pyplot"
proof -
  have h: "\<not> hasattr_to_json (df_filter (sample_args\<lparr>df_filter := BoolList [False, False, False]\<rparr>))"
    by simp
  from predicate_without_to_json_is_skipped [OF h, of sample_df "[''date'', ''equity'']" sample_ext fresh_pyplot]
  show ?thesis by simp
qed

section \<open>The rows after the start date\<close>

lemma take_true_columns: "take_true d key = Inr k \<Longrightarrow> columns k = columns d"
  by (auto simp: take_true_def split: if_splits)

lemma take_true_rows:
  assumes "take_true d key = Inr k" and "x \<in> set (rows k)"
  shows "x \<in> set (rows d)"
proof (cases "list_all (\<lambda>b. b) key")
  case True
  with assms show ?thesis
    by (simp add: take_true_def)
next
  case False
  with assms(1) have
    inside: "\<not> list_ex (\<lambda>j. key ! j \<and> length (rows d) \<le> j) [0 ..< length key]"
    and k: "rows k = map (\<lambda>j. rows d ! j) (filter (\<lambda>j. key ! j) [0 ..< length key])"
    by (auto simp: take_true_def split: if_splits)
  from assms(2) k obtain j where "j < length key" "key ! j" and x: "x = rows d ! j"
    by auto
  with inside have "j < length (rows d)"
    by (auto simp: list_ex_iff)
  then show ?thesis
    by (simp add: x)
qed

lemma getitem_mask_columns:
  "getitem_mask d m = Inr k \<Longrightarrow> columns k = columns d"
  by (auto simp: getitem_mask_def split: if_splits sum.splits dest: take_true_columns)

lemma getitem_mask_rows:
  "getitem_mask d m = Inr k \<Longrightarrow> x \<in> set (rows k) \<Longrightarrow> x \<in> set (rows d)"
  by (auto simp: getitem_mask_def split: if_splits sum.splits dest: take_true_rows)

lemma getitem_list_columns:
  "getitem_list d cs = Inr k \<Longrightarrow> set cs \<subseteq> set (columns d) \<and> set (columns k) \<subseteq> set (columns d)"
  by (auto simp: getitem_list_def project_def filter_empty_conv split: list.splits)

lemma getitem_list_rows:
  "getitem_list d cs = Inr k \<Longrightarrow>
     rows k = map (\<lambda>(i, r). (i, \<lambda>c. if c \<in> set cs then r c else NaN)) (rows d)"
  by (auto simp: getitem_list_def project_def split: list.splits)

lemma getitem_list_absent:
  "c \<in> set cs \<Longrightarrow> c \<notin> set (columns d) \<Longrightarrow> \<exists>e. getitem_list d cs = Inl e"
  by (cases "getitem_list d cs") (auto dest: getitem_list_columns)

text \<open>
  A predicate that repeats a label does not raise by itself: with the label 2 under True and
  under False, the aligned key has four entries for three rows and selects the rows at the
  positions 0, 1 and 2.
\<close>

lemma repeating_mask_selects_by_position:
  "map_option (map fst \<circ> rows)
     (case getitem_mask sample_df repeating_mask of Inl e \<Rightarrow> None | Inr k \<Rightarrow> Some k)
   = Some [0, 1, 2]"
  by (simp add: run_defs)

lemma positions_filter:
  "map (\<lambda>j. xs ! j) (filter (\<lambda>j. P (xs ! j)) [0 ..< length xs]) = filter P xs"
proof -
  have "filter P (map (\<lambda>j. xs ! j) [0 ..< length xs]) = filter P xs"
    by (simp only: map_nth)
  then show ?thesis
    by (simp add: filter_map comp_def)
qed

lemma take_true_filter:
  "take_true d (map P (rows d)) = Inr (d\<lparr>rows := filter P (rows d)\<rparr>)"
proof (cases "list_all (\<lambda>b. b) (map P (rows d))")
  case True
  then have "filter P (rows d) = rows d"
    by (simp add: list_all_iff filter_id_conv)
  with True show ?thesis
    by (simp add: take_true_def)
next
  case False
  have in_range: "\<not> list_ex (\<lambda>j. map P (rows d) ! j \<and> length (rows d) \<le> j)
                       [0 ..< length (map P (rows d))]"
    by (auto simp: list_ex_iff)
  have "filter (\<lambda>j. map P (rows d) ! j) [0 ..< length (rows d)] =
          filter (\<lambda>j. P (rows d ! j)) [0 ..< length (rows d)]"
    by (rule filter_cong) simp_all
  then have "map (\<lambda>j. rows d ! j) (filter (\<lambda>j. map P (rows d) ! j) [0 ..< length (map P (rows d))]) =
               filter P (rows d)"
    by (simp add: positions_filter)
  with False in_range show ?thesis
    by (simp add: take_true_def)
qed

lemma start_mask_rows:
  assumes "series_ge (map (\<lambda>(i, r). (i, r c)) (rows d)) v = Inr m"
      and "getitem_mask d m = Inr k"
  shows "rows k = filter (\<lambda>(i, r). cell_ge v (r c)) (rows d)"
proof -
  from assms(1) have m: "m = map (\<lambda>(i, r). (i, cell_ge v (r c))) (rows d)"
    by (auto simp: series_ge_def split: if_splits)
  have idx: "map fst m = map fst (rows d)"
    by (simp add: m case_prod_unfold comp_def)
  have "map snd m = map (\<lambda>(i, r). cell_ge v (r c)) (rows d)"
    by (simp add: m case_prod_unfold comp_def)
  with assms(2) idx have "take_true d (map (\<lambda>(i, r). cell_ge v (r c)) (rows d)) = Inr k"
    by (simp add: getitem_mask_def)
  then show ?thesis
    by (auto simp: take_true_filter)
qed

lemma from_date_mask:
  "from_date t c d \<Longrightarrow> getitem_mask d m = Inr k \<Longrightarrow> from_date t c k"
  by (auto simp: from_date_def list_all_iff dest: getitem_mask_rows)

lemma from_date_list:
  "from_date t c d \<Longrightarrow> c \<in> set cs \<Longrightarrow> getitem_list d cs = Inr k \<Longrightarrow> from_date t c k"
proof -
  assume d: "from_date t c d" and c: "c \<in> set cs" and k: "getitem_list d cs = Inr k"
  have "cell_ge t (r c)" if "(i, r) \<in> set (rows k)" for i r
  proof -
    from that getitem_list_rows [OF k] obtain r' where
      "(i, r') \<in> set (rows d)" and "r = (\<lambda>c. if c \<in> set cs then r' c else NaN)"
      by auto
    with d c show ?thesis
      by (auto simp: from_date_def list_all_iff)
  qed
  then show ?thesis
    by (auto simp: from_date_def list_all_iff)
qed

lemma from_date_dropna: "from_date t c d \<Longrightarrow> from_date t c (dropna d)"
  by (auto simp: from_date_def list_all_iff dropna_def)

lemma from_date_predicate:
  "from_date t c d \<Longrightarrow> c \<in> set cs \<Longrightarrow> filter_predicate f d cs = Inr k \<Longrightarrow> from_date t c k"
  by (cases f) (auto split: sum.splits intro: from_date_mask from_date_list)

lemma from_date_start:
  assumes "filter_start_date ext a cl = Inr u" "start_date a = Some s" "s \<noteq> []"
          "strptime ext s = Some t" "date_col a \<in> set cl"
  shows "from_date t (date_col a) u"
proof -
  from assms obtain m k where
    ge: "series_ge (map (\<lambda>(i, r). (i, r (date_col a))) (rows (df a))) t = Inr m"
    and mk: "getitem_mask (df a) m = Inr k" and pr: "getitem_list k cl = Inr u"
    by (auto simp: filter_start_date_def getitem_col_def split: sum.splits if_splits)
  from start_mask_rows [OF ge mk] have "from_date t (date_col a) k"
    by (simp add: from_date_def list_all_iff)
  from from_date_list [OF this assms(5) pr] show ?thesis .
qed

lemma cell_ge_iff: "cell_ge t c \<longleftrightarrow> (\<exists>d. c = Date d \<and> t \<le> d)"
  by (cases c) simp_all

text \<open>
  Claim C6: with a start date that parses, every row of the frame the plot is drawn from
  has a timestamp at or after the parsed date in the date column, whatever predicate is
  passed and whether or not incomplete rows are dropped.
\<close>

theorem rows_at_or_after_start_date:
  assumes "scrub_df ext a (column_list ext a) = Inr out"
      and "start_date a = Some s" and "s \<noteq> []" and "strptime ext s = Some t"
  shows "\<forall>(i, r) \<in> set (rows out). \<exists>d. r (date_col a) = Date d \<and> t \<le> d"
proof -
  have dc: "date_col a \<in> set (column_list ext a)"
    by (simp add: column_list_slots)
  from assms(1) obtain u u' where
    st: "filter_start_date ext a (column_list ext a) = Inr u"
    and pr: "filter_predicate (df_filter a) u (column_list ext a) = Inr u'"
    and out: "out = (if dropna_for_all a then dropna u' else u')"
    by (auto simp: scrub_df_def split: sum.splits)
  from from_date_start [OF st assms(2,3,4) dc] have "from_date t (date_col a) u" .
  from from_date_predicate [OF this dc pr] have "from_date t (date_col a) u'" .
  then have "from_date t (date_col a) out"
    by (simp add: out from_date_dropna)
  then show ?thesis
    by (auto simp: from_date_def list_all_iff cell_ge_iff)
qed

theorem rows_at_or_after_start_date_witness:
  "\<exists>kept out.
      filter_start_date sample_ext sample_filtered (column_list sample_ext sample_filtered) = Inr kept \<and>
      map fst (rows sample_df) = [0, 1, 2] \<and> map fst (rows kept) = [1, 2] \<and>
      scrub_df sample_ext sample_filtered (column_list sample_ext sample_filtered) = Inr out \<and>
      start_date sample_filtered = Some ''2020-01-03 00:00:00'' \<and>
      strptime sample_ext ''2020-01-03 00:00:00'' = Some 2 \<and>
      map fst (rows out) = [2] \<and>
      list_all (\<lambda>(i, r). \<exists>d. r (date_col sample_filtered) = Date d \<and> 2 \<le> d) (rows out)"
proof -
  obtain kept where
    date_step: "filter_start_date sample_ext sample_filtered
                  (column_list sample_ext sample_filtered) = Inr kept"
    and kx: "map fst (rows kept) = [1, 2]"
    by (simp add: run_defs)
  obtain out where run: "scrub_df sample_ext sample_filtered (column_list sample_ext sample_filtered) = Inr out"
    and ix: "map fst (rows out) = [2]"
    by (simp add: run_defs)
  have d: "map fst (rows sample_df) = [0, 1, 2]"
    by (simp add: sample_df_def sample_row_def)
  have s: "start_date sample_filtered = Some ''2020-01-03 00:00:00''"
    by (simp add: sample_filtered_def sample_args_def)
  have t: "strptime sample_ext ''2020-01-03 00:00:00'' = Some 2"
    by (simp add: sample_ext_def)
  from rows_at_or_after_start_date [OF run s _ t] date_step kx run ix d s t show ?thesis
    by (auto simp: list_all_iff)
qed

section \<open>Exceptions\<close>

lemma dropna_columns [simp]: "columns (dropna d) = columns d"
  by (simp add: dropna_def)

lemma filter_predicate_columns:
  "filter_predicate f d cs = Inr k \<Longrightarrow> set (columns k) \<subseteq> set (columns d)"
  by (cases f) (auto split: sum.splits dest!: getitem_list_columns getitem_mask_columns)

lemma filter_start_date_columns:
  "filter_start_date ext a cl = Inr u \<Longrightarrow> set (columns u) \<subseteq> set (columns (df a))"
  by (auto simp: filter_start_date_def split: option.splits if_splits sum.splits
           dest!: getitem_list_columns getitem_mask_columns)

lemma scrub_df_columns:
  "scrub_df ext a cl = Inr u \<Longrightarrow> set (columns u) \<subseteq> set (columns (df a))"
  by (auto simp: scrub_df_def split: sum.splits if_splits
           dest!: filter_start_date_columns filter_predicate_columns)

lemma plot_body_absent:
  "date_col a \<notin> set (columns u) \<or> column node \<notin> set (columns u) \<Longrightarrow>
     \<exists>e. plot_body ext a u ax idx node s = Inl e"
proof -
  assume "date_col a \<notin> set (columns u) \<or> column node \<notin> set (columns u)"
  then obtain e where "getitem_list u [date_col a, column node] = Inl e"
    using getitem_list_absent [of "date_col a" "[date_col a, column node]" u]
          getitem_list_absent [of "column node" "[date_col a, column node]" u]
    by auto
  then show ?thesis
    by (simp add: plot_body_def split: prod.splits)
qed

lemma plot_loop_absent:
  "list_ex (\<lambda>n. column n \<notin> set (columns u)) nodes \<Longrightarrow>
     \<exists>e. plot_loop ext a u ax idx nodes s = Inl e"
proof (induction nodes arbitrary: idx s)
  case Nil
  then show ?case by simp
next
  case (Cons node nodes)
  show ?case
  proof (cases "plot_body ext a u ax idx node s")
    case (Inl e)
    then show ?thesis by simp
  next
    case (Inr s')
    with plot_body_absent [of a u node ext ax idx s] have "column node \<in> set (columns u)"
      by auto
    with Cons.prems have "list_ex (\<lambda>n. column n \<notin> set (columns u)) nodes"
      by simp
    from Cons.IH [OF this] Inr show ?thesis
      by simp
  qed
qed

lemma plot_loop_no_date:
  "date_col a \<notin> set (columns u) \<Longrightarrow> nodes \<noteq> [] \<Longrightarrow>
     \<exists>e. plot_loop ext a u ax idx nodes s = Inl e"
  using plot_body_absent [of a u "hd nodes" ext ax idx s]
  by (cases nodes) auto

lemma run_unfold:
  "plot_trading_history ext a p =
     (case scrub_df ext a (column_list ext a) of
        Inl e \<Rightarrow> Inl e
      | Inr use_df \<Rightarrow>
          (case plot_loop ext a use_df 0 0 (all_plots ext a)
                  \<lparr>plt = snd (subplots (width a) (height a) (p\<lparr>fonts_set := True\<rparr>)),
                   all_axes = [], use_ax = None, hex_color = PLOT_COLORS ext ''blue''\<rparr> of
             Inl e \<Rightarrow> Inl e
           | Inr s \<Rightarrow>
               (case collect_lines (plt s) (use_ax s) 0 (all_axes s) ([], rec_init) of
                  Inl e \<Rightarrow> Inl e
                | Inr (lines, r) \<Rightarrow>
                    Inr (build_result SUCCESS None
                           (r(''fig'' \<mapsto> Some (FigureHandle (fig_count (plt s))))),
                         decorate ext a 0 lines (plt s)))))"
  by (auto simp: plot_trading_history_def column_list_def all_plots_def subplots_def
           split: prod.splits sum.splits)

lemma run_status: "plot_trading_history ext a p = Inr (res, p') \<Longrightarrow> status res = SUCCESS"
  by (auto simp: run_unfold build_result_def split: sum.splits)

lemma run_loop_raises:
  assumes "\<And>u s. scrub_df ext a (column_list ext a) = Inr u \<Longrightarrow>
             \<exists>e. plot_loop ext a u 0 0 (all_plots ext a) s = Inl e"
  shows "\<exists>e. plot_trading_history ext a p = Inl e"
proof (cases "scrub_df ext a (column_list ext a)")
  case (Inl e)
  then show ?thesis
    by (simp add: run_unfold)
next
  case (Inr u)
  from assms [OF Inr] obtain e where
    "plot_loop ext a u 0 0 (all_plots ext a)
       \<lparr>plt = snd (subplots (width a) (height a) (p\<lparr>fonts_set := True\<rparr>)),
        all_axes = [], use_ax = None, hex_color = PLOT_COLORS ext ''blue''\<rparr> = Inl e"
    by blast
  with Inr show ?thesis
    by (simp add: run_unfold)
qed

lemma malformed_start_date:
  "start_date a = Some s \<Longrightarrow> s \<noteq> [] \<Longrightarrow> strptime ext s = None \<Longrightarrow>
     plot_trading_history ext a p = Inl ParseError"
  by (simp add: run_unfold scrub_df_def filter_start_date_def)

lemma absent_series_column:
  assumes "list_ex (\<lambda>c. c \<notin> set (columns (df a))) (slot_names a)"
  shows "\<exists>e. plot_trading_history ext a p = Inl e"
proof (rule run_loop_raises)
  fix u s assume "scrub_df ext a (column_list ext a) = Inr u"
  from scrub_df_columns [OF this] assms
  have "list_ex (\<lambda>n. column n \<notin> set (columns u)) (all_plots ext a)"
    unfolding all_plots_columns [of ext a, symmetric] by (auto simp: list_ex_iff)
  then show "\<exists>e. plot_loop ext a u 0 0 (all_plots ext a) s = Inl e"
    by (rule plot_loop_absent)
qed

lemma absent_date_column:
  assumes "date_col a \<notin> set (columns (df a))"
      and "truthy (start_date a) \<or> hasattr_to_json (df_filter a) \<or> slot_names a \<noteq> []"
  shows "\<exists>e. plot_trading_history ext a p = Inl e"
proof (cases "scrub_df ext a (column_list ext a)")
  case (Inl e)
  then show ?thesis
    by (simp add: run_unfold)
next
  case (Inr u)
  have dc: "date_col a \<in> set (column_list ext a)"
    by (simp add: column_list_slots)
  from Inr obtain u0 u1 where
    st: "filter_start_date ext a (column_list ext a) = Inr u0"
    and pr: "filter_predicate (df_filter a) u0 (column_list ext a) = Inr u1"
    by (auto simp: scrub_df_def split: sum.splits)
  have no_start: "\<not> truthy (start_date a)"
  proof
    assume "truthy (start_date a)"
    with st assms(1) show False
      by (cases "start_date a")
         (auto simp: filter_start_date_def getitem_col_def split: option.splits if_splits)
  qed
  with st have u0: "u0 = df a"
    by (cases "start_date a") (auto simp: filter_start_date_def split: if_splits)
  have no_pred: "\<not> hasattr_to_json (df_filter a)"
  proof
    assume "hasattr_to_json (df_filter a)"
    then obtain m where "df_filter a = BoolSeries m"
      by (cases "df_filter a") auto
    with pr obtain k where "getitem_mask u0 m = Inr k" and "getitem_list k (column_list ext a) = Inr u1"
      by (auto split: sum.splits)
    with getitem_mask_columns [of u0 m k] getitem_list_columns [of k "column_list ext a" u1] dc assms(1)
    show False
      by (auto simp: u0)
  qed
  with no_start assms(2) have "all_plots ext a \<noteq> []"
    using all_plots_columns [of ext a] by auto
  moreover from scrub_df_columns [OF Inr] assms(1) have "date_col a \<notin> set (columns u)"
    by auto
  ultimately have "\<exists>e. plot_loop ext a u 0 0 (all_plots ext a) s = Inl e" for s
    by (rule plot_loop_no_date [rotated])
  then show ?thesis
    using Inr by (intro run_loop_raises) auto
qed

text \<open>
  Claim C1, as stated, fails: the function has no exception handler, so an exception
  leaves it and no envelope is returned; a malformed start date raises the parse error,
  and a series column the dataset lacks raises the lookup error.
\<close>

theorem no_failed_envelope:
  "raised (plot_trading_history sample_ext (sample_args\<lparr>start_date := Some ''yesterday''\<rparr>) fresh_pyplot)
     = Some ParseError \<and>
   returned (plot_trading_history sample_ext (sample_args\<lparr>start_date := Some ''yesterday''\<rparr>) fresh_pyplot)
     = None \<and>
   raised (plot_trading_history sample_ext (sample_args\<lparr>blue := Some ''volume''\<rparr>) fresh_pyplot)
     = Some (KeyError ''volume'') \<and>
   returned (plot_trading_history sample_ext (sample_args\<lparr>blue := Some ''volume''\<rparr>) fresh_pyplot)
     = None"
  by (simp add: run_defs str_nat.simps)

text \<open>
  Claim C1, amended: when the start date is malformed the parse error propagates to the
  caller; when a selected series column is absent from the dataset, or the date column is
  absent and a start date, a Series predicate or a series is given, an exception
  propagates to the caller. In each case no envelope is returned, and no call returns an
  envelope with status FAILED.
\<close>

theorem fatal_conditions_propagate:
  "((\<exists>s. start_date a = Some s \<and> s \<noteq> [] \<and> strptime ext s = None) \<longrightarrow>
      plot_trading_history ext a p = Inl ParseError) \<and>
   (list_ex (\<lambda>c. c \<notin> set (columns (df a))) (slot_names a) \<longrightarrow>
      (\<exists>e. plot_trading_history ext a p = Inl e)) \<and>
   (date_col a \<notin> set (columns (df a)) \<and>
      (truthy (start_date a) \<or> hasattr_to_json (df_filter a) \<or> slot_names a \<noteq> []) \<longrightarrow>
      (\<exists>e. plot_trading_history ext a p = Inl e)) \<and>
   (\<forall>res p'. plot_trading_history ext a p = Inr (res, p') \<longrightarrow> status res \<noteq> FAILED)"
  using malformed_start_date [of a _ ext p] absent_series_column [of a ext p]
        absent_date_column [of a ext p] run_status [of ext a p]
  by (intro conjI) (blast, blast, blast, auto)

theorem fatal_conditions_propagate_witness:
  "strptime sample_ext ''2020-13-45'' = None \<and>
   plot_trading_history sample_ext (sample_args\<lparr>start_date := Some ''2020-13-45''\<rparr>) fresh_pyplot
     = Inl ParseError \<and>
   list_ex (\<lambda>c. c \<notin> set (columns sample_df)) (slot_names (sample_args\<lparr>green := Some ''volume''\<rparr>)) \<and>
   (\<exists>e. plot_trading_history sample_ext (sample_args\<lparr>green := Some ''volume''\<rparr>) fresh_pyplot = Inl e) \<and>
   ''day'' \<notin> set (columns sample_df) \<and>
   (\<exists>e. plot_trading_history sample_ext (sample_args\<lparr>date_col := ''day''\<rparr>) fresh_pyplot = Inl e)"
proof -
  have 1: "\<exists>s. start_date (sample_args\<lparr>start_date := Some ''2020-13-45''\<rparr>) = Some s \<and> s \<noteq> [] \<and>
             strptime sample_ext s = None"
    by (simp add: sample_ext_def)
  have 2: "list_ex (\<lambda>c. c \<notin> set (columns (df (sample_args\<lparr>green := Some ''volume''\<rparr>))))
             (slot_names (sample_args\<lparr>green := Some ''volume''\<rparr>))"
    by (simp add: slot_names_def sample_args_def sample_df_def)
  have 3: "date_col (sample_args\<lparr>date_col := ''day''\<rparr>) \<notin> set (columns (df (sample_args\<lparr>date_col := ''day''\<rparr>))) \<and>
           (truthy (start_date (sample_args\<lparr>date_col := ''day''\<rparr>)) \<or>
            hasattr_to_json (df_filter (sample_args\<lparr>date_col := ''day''\<rparr>)) \<or>
            slot_names (sample_args\<lparr>date_col := ''day''\<rparr>) \<noteq> [])"
    by (simp add: slot_names_def sample_args_def sample_df_def)
  have df: "df sample_args = sample_df"
    by (simp add: sample_args_def)
  from fatal_conditions_propagate [of "sample_args\<lparr>start_date := Some ''2020-13-45''\<rparr>" sample_ext fresh_pyplot] 1
  have a: "plot_trading_history sample_ext (sample_args\<lparr>start_date := Some ''2020-13-45''\<rparr>) fresh_pyplot
     = Inl ParseError" by blast
  from fatal_conditions_propagate [of "sample_args\<lparr>green := Some ''volume''\<rparr>" sample_ext fresh_pyplot] 2
  have b: "\<exists>e. plot_trading_history sample_ext (sample_args\<lparr>green := Some ''volume''\<rparr>) fresh_pyplot = Inl e"
    by blast
  from fatal_conditions_propagate [of "sample_args\<lparr>date_col := ''day''\<rparr>" sample_ext fresh_pyplot] 3
  have c: "\<exists>e. plot_trading_history sample_ext (sample_args\<lparr>date_col := ''day''\<rparr>) fresh_pyplot = Inl e"
    by blast
  from a b c 2 3 show ?thesis
    by (simp add: df sample_ext_def sample_df_def)
qed

section \<open>The axes of the figure\<close>

lemma getitem_list_project: "getitem_list d cs = Inr k \<Longrightarrow> k = project d cs"
  by (auto simp: getitem_list_def split: list.splits)

lemma frame_plot_result:
  "frame_plot ext d x bar c ax p = Inr p' \<Longrightarrow> p' = upd_axes ax (plot_on ext d x bar c) p"
  by (auto simp: frame_plot_def split: if_splits)

lemma float_overflow_zero [simp]: "\<not> float_overflow 0"
proof -
  have "(2::real) ^ 970 < 2 ^ 1024"
    by (rule power_strict_increasing) simp_all
  then show ?thesis
    by (simp add: float_overflow_def)
qed

lemma style_secondary_eq:
  "style_secondary a A =
     (if scale_y a \<and> float_overflow (snd (ylim A) * 3) then Inl ValueError
      else Inr (styled_twin a A))"
  by (simp add: style_secondary_def set_ylim_def styled_twin_def)

lemma secondary_step:
  assumes "0 < idx" and "plot_body ext a u ax idx node s = Inr s'"
  shows "s' = \<lparr>plt = (plt s)\<lparr>fig_axes := fig_axes (plt s) @ [styled_twin a (node_axis ext a u node)],
                           gca := length (fig_axes (plt s))\<rparr>,
              all_axes = all_axes s @ [length (fig_axes (plt s))],
              use_ax = Some (length (fig_axes (plt s))),
              hex_color = color node\<rparr>"
  using assms
  by (auto simp: plot_body_def twinx_def upd_axes_def node_axis_def style_secondary_eq
           split: sum.splits if_splits dest!: getitem_list_project frame_plot_result)

lemma primary_step:
  assumes "plot_body ext a u 0 0 node s = Inr s'"
      and "fig_axes (plt s) = [new_axes]" and "gca (plt s) = 0"
  shows "s' = \<lparr>plt = (plt s)\<lparr>fig_axes := [primary_axis ext a u node]\<rparr>,
              all_axes = all_axes s @ [0], use_ax = Some 0, hex_color = color node\<rparr>"
  using assms
  by (auto simp: plot_body_def upd_axes_def node_axis_def primary_axis_def style_primary_def
           split: sum.splits dest!: getitem_list_project frame_plot_result)

lemma upt_shift: "[n ..< n + Suc k] = n # [Suc n ..< Suc n + k]"
  by (simp add: upt_conv_Cons del: upt_Suc)

lemma secondary_loop:
  assumes "0 < idx" and "plot_loop ext a u ax idx nodes s = Inr s'"
  shows "fig_axes (plt s') =
           fig_axes (plt s) @ map (\<lambda>n. styled_twin a (node_axis ext a u n)) nodes \<and>
         all_axes s' =
           all_axes s @ [length (fig_axes (plt s)) ..< length (fig_axes (plt s)) + length nodes] \<and>
         use_ax s' =
           (if nodes = [] then use_ax s
            else Some (length (fig_axes (plt s)) + length nodes - 1)) \<and>
         gca (plt s') =
           (if nodes = [] then gca (plt s)
            else length (fig_axes (plt s)) + length nodes - 1)"
  using assms
proof (induction nodes arbitrary: idx s)
  case Nil
  then show ?case by simp
next
  case (Cons node nodes)
  from Cons.prems(2) obtain s1 where
    b: "plot_body ext a u ax idx node s = Inr s1"
    and l: "plot_loop ext a u ax (Suc idx) nodes s1 = Inr s'"
    by (auto split: sum.splits)
  note st = secondary_step [OF Cons.prems(1) b]
  have ih: "fig_axes (plt s') =
           fig_axes (plt s1) @ map (\<lambda>n. styled_twin a (node_axis ext a u n)) nodes \<and>
         all_axes s' =
           all_axes s1 @ [length (fig_axes (plt s1)) ..< length (fig_axes (plt s1)) + length nodes] \<and>
         use_ax s' =
           (if nodes = [] then use_ax s1
            else Some (length (fig_axes (plt s1)) + length nodes - 1)) \<and>
         gca (plt s') =
           (if nodes = [] then gca (plt s1)
            else length (fig_axes (plt s1)) + length nodes - 1)"
    by (rule Cons.IH [OF _ l]) simp
  have f1: "fig_axes (plt s1) = fig_axes (plt s) @ [styled_twin a (node_axis ext a u node)]"
    and a1: "all_axes s1 = all_axes s @ [length (fig_axes (plt s))]"
    and u1: "use_ax s1 = Some (length (fig_axes (plt s)))"
    and g1: "gca (plt s1) = length (fig_axes (plt s))"
    by (simp_all add: st)
  have up: "[length (fig_axes (plt s)) ..< length (fig_axes (plt s)) + length (node # nodes)] =
            length (fig_axes (plt s)) # [Suc (length (fig_axes (plt s))) ..<
                                          Suc (length (fig_axes (plt s))) + length nodes]"
    using upt_shift [of "length (fig_axes (plt s))" "length nodes"] by simp
  show ?case
    unfolding up using ih by (cases nodes) (simp_all add: f1 a1 u1 g1)
qed

lemma whole_loop:
  assumes "plot_loop ext a u 0 0 nodes
             \<lparr>plt = p1, all_axes = [], use_ax = None, hex_color = h\<rparr> = Inr s"
      and "fig_axes p1 = [new_axes]" and "gca p1 = 0"
  shows "fig_axes (plt s) = composed ext a u nodes \<and>
         all_axes s = [0 ..< length nodes] \<and>
         use_ax s = (if nodes = [] then None else Some (length nodes - 1)) \<and>
         gca (plt s) = length nodes - 1"
proof (cases nodes)
  case Nil
  with assms show ?thesis by auto
next
  case (Cons node rest)
  with assms(1) obtain s1 where
    b: "plot_body ext a u 0 0 node \<lparr>plt = p1, all_axes = [], use_ax = None, hex_color = h\<rparr> = Inr s1"
    and l: "plot_loop ext a u 0 (Suc 0) rest s1 = Inr s"
    by (auto split: sum.splits)
  from primary_step [OF b] assms(2,3)
  have s1: "s1 = \<lparr>plt = p1\<lparr>fig_axes := [primary_axis ext a u node]\<rparr>,
              all_axes = [0], use_ax = Some 0, hex_color = color node\<rparr>"
    by simp
  have up: "[0 ..< length (node # rest)] = 0 # [Suc 0 ..< Suc 0 + length rest]"
    using upt_shift [of 0 "length rest"] by simp
  from secondary_loop [OF _ l] show ?thesis
    unfolding Cons up by (cases rest) (simp_all add: s1 assms(3))
qed

lemma upd_axes_keeps:
  assumes "\<And>A. g (f A) = g A"
  shows "g (fig_axes (upd_axes j f p) ! i) = g (fig_axes p ! i)"
proof (cases "j < length (fig_axes p)")
  case True
  then show ?thesis
    by (simp add: upd_axes_def nth_list_update assms)
next
  case False
  then show ?thesis
    by (simp add: upd_axes_def list_update_beyond)
qed

lemma upd_axes_length [simp]: "length (fig_axes (upd_axes j f p)) = length (fig_axes p)"
  by (simp add: upd_axes_def)

lemma upd_axes_gca [simp]: "gca (upd_axes j f p) = gca p"
  by (simp add: upd_axes_def)







lemma ylim_primary_axis: "ylim (primary_axis ext a u n) = ylim (node_axis ext a u n)"
  by (simp add: primary_axis_def)

lemma composed_length:
  "length (composed ext a u nodes) = (if nodes = [] then 1 else length nodes)"
  by (cases nodes) simp_all




lemma getitem_list_Inr_iff:
  "(\<exists>k. getitem_list d cs = Inr k) \<longleftrightarrow> set cs \<subseteq> set (columns d)"
proof -
  have "filter (\<lambda>c. c \<notin> set (columns d)) cs = [] \<longleftrightarrow> set cs \<subseteq> set (columns d)"
    by (auto simp: filter_empty_conv)
  then show ?thesis
    by (cases "filter (\<lambda>c. c \<notin> set (columns d)) cs") (simp_all add: getitem_list_def)
qed

lemma plot_body_primary_succeeds_iff:
  "(\<exists>s'. plot_body ext a u ax 0 node s = Inr s') \<longleftrightarrow> node_ok a u node"
proof (cases "getitem_list u [date_col a, column node]")
  case (Inl e)
  with getitem_list_Inr_iff [of u "[date_col a, column node]"] show ?thesis
    by (auto simp: plot_body_def node_ok_def)
next
  case (Inr k)
  with getitem_list_Inr_iff [of u "[date_col a, column node]"] getitem_list_project [OF Inr]
  show ?thesis
    by (auto simp: plot_body_def node_ok_def frame_plot_def)
qed

lemma twinx_plotted:
  "fig_axes (upd_axes (fst (twinx p)) f (snd (twinx p))) ! fst (twinx p) = f new_axes"
  by (simp add: twinx_def upd_axes_def)

lemma plot_body_twin_succeeds_iff:
  assumes "0 < idx"
  shows "(\<exists>s'. plot_body ext a u ax idx node s = Inr s') \<longleftrightarrow>
           node_ok a u node \<and> twin_ok ext a u node"
proof (cases "getitem_list u [date_col a, column node]")
  case (Inl e)
  with getitem_list_Inr_iff [of u "[date_col a, column node]"] assms show ?thesis
    by (auto simp: plot_body_def node_ok_def split: prod.splits)
next
  case (Inr k)
  then have k: "k = project u [date_col a, column node]"
    by (rule getitem_list_project)
  show ?thesis
  proof (cases "length (filter (\<lambda>c'. c' = date_col a) (columns k)) = 1")
    case False
    with Inr assms k show ?thesis
      by (auto simp: plot_body_def node_ok_def frame_plot_def split: prod.splits)
  next
    case True
    have ok: "node_ok a u node"
      using True Inr k getitem_list_Inr_iff [of u "[date_col a, column node]"]
      by (auto simp: node_ok_def)
    have ax: "fig_axes (upd_axes (fst (twinx (plt s)))
                 (plot_on ext k (date_col a) (linestyle a \<noteq> ''-'') (color node))
                 (snd (twinx (plt s)))) ! fst (twinx (plt s)) = node_axis ext a u node"
      by (simp only: twinx_plotted) (simp add: node_axis_def k)
    from assms Inr True ax ok show ?thesis
      by (auto simp: plot_body_def frame_plot_def style_secondary_eq twin_ok_def
               split: prod.splits)
  qed
qed

lemma twin_loop_succeeds_iff:
  "0 < idx \<Longrightarrow>
     (\<exists>s'. plot_loop ext a u ax idx nodes s = Inr s') \<longleftrightarrow>
       list_all (\<lambda>n. node_ok a u n \<and> twin_ok ext a u n) nodes"
proof (induction nodes arbitrary: idx s)
  case Nil
  then show ?case by simp
next
  case (Cons node nodes)
  note body = plot_body_twin_succeeds_iff [OF Cons.prems, of ext a u ax node s]
  show ?case
  proof (cases "plot_body ext a u ax idx node s")
    case (Inl e)
    with body show ?thesis
      by auto
  next
    case (Inr s1)
    with body have "node_ok a u node \<and> twin_ok ext a u node"
      by auto
    with Inr Cons.IH [of "Suc idx" s1] show ?thesis
      by simp
  qed
qed

lemma plot_loop_succeeds_iff:
  "(\<exists>s'. plot_loop ext a u ax 0 nodes s = Inr s') \<longleftrightarrow> loop_ok ext a u nodes"
proof (cases nodes)
  case Nil
  then show ?thesis by simp
next
  case (Cons node rest)
  note body = plot_body_primary_succeeds_iff [of ext a u ax node s]
  show ?thesis
  proof (cases "plot_body ext a u ax 0 node s")
    case (Inl e)
    with body Cons show ?thesis
      by simp
  next
    case (Inr s1)
    with body have "node_ok a u node"
      by auto
    with Inr Cons twin_loop_succeeds_iff [of "Suc 0" ext a u ax rest s1] show ?thesis
      by simp
  qed
qed

lemma loop_ok_nodes: "loop_ok ext a u nodes \<Longrightarrow> list_all (node_ok a u) nodes"
  by (cases nodes) (auto simp: list_all_iff)



lemma scrub_df_scale_y [simp]: "scrub_df ext (a\<lparr>scale_y := b\<rparr>) = scrub_df ext a"
  by (auto simp: fun_eq_iff scrub_df_def filter_start_date_def split: sum.splits option.splits)

lemma select_series_scale_y [simp]: "select_series ext (a\<lparr>scale_y := b\<rparr>) = select_series ext a"
  by (simp add: select_series_def)

lemma node_ok_scale_y [simp]: "node_ok (a\<lparr>scale_y := b\<rparr>) = node_ok a"
  by (simp add: fun_eq_iff node_ok_def)

lemma node_axis_scale_y [simp]: "node_axis ext (a\<lparr>scale_y := b\<rparr>) = node_axis ext a"
  by (simp add: fun_eq_iff node_axis_def)

lemma primary_axis_scale_y [simp]: "primary_axis ext (a\<lparr>scale_y := b\<rparr>) = primary_axis ext a"
  by (simp add: fun_eq_iff primary_axis_def)


text \<open>
  The converse direction fails: with an upper limit of \<^verbatim>\<open>2^1023\<close> on the twin axis
  the call returns with the flag unset and raises ValueError at line 254 with it set.
\<close>

lemma tripled_limit_overflows:
  "raised (plot_trading_history sample_ext (sample_huge\<lparr>scale_y := True\<rparr>) fresh_pyplot)
     = Some ValueError \<and>
   raised (plot_trading_history sample_ext (sample_huge\<lparr>scale_y := False\<rparr>) fresh_pyplot)
     = None"
  by (simp add: run_defs str_nat.simps)





section \<open>The display\<close>

lemma plot_body_counts:
  "plot_body ext a u ax idx node s = Inr s' \<Longrightarrow>
     show_calls (plt s') = show_calls (plt s) \<and> plot_calls (plt s') = plot_calls (plt s)"
  by (auto simp: plot_body_def twinx_def frame_plot_def upd_axes_def style_primary_def
           split: if_splits sum.splits prod.splits)

lemma plot_loop_counts:
  "plot_loop ext a u ax idx nodes s = Inr s' \<Longrightarrow>
     show_calls (plt s') = show_calls (plt s) \<and> plot_calls (plt s') = plot_calls (plt s)"
proof (induction nodes arbitrary: idx s)
  case Nil
  then show ?case by simp
next
  case (Cons node nodes)
  then show ?case
    by (auto split: sum.splits dest!: plot_body_counts)
qed

lemma run_parts:
  assumes "plot_trading_history ext a p = Inr (res, p')"
  obtains u and s :: loop_state and lines r where
    "scrub_df ext a (column_list ext a) = Inr u"
    "plot_loop ext a u 0 0 (all_plots ext a)
       \<lparr>plt = snd (subplots (width a) (height a) (p\<lparr>fonts_set := True\<rparr>)),
        all_axes = [], use_ax = None, hex_color = PLOT_COLORS ext ''blue''\<rparr> = Inr s"
    "collect_lines (plt s) (use_ax s) 0 (all_axes s) ([], rec_init) = Inr (lines, r)"
    "res = build_result SUCCESS None (r(''fig'' \<mapsto> Some (FigureHandle (fig_count (plt s)))))"
    "p' = decorate ext a 0 lines (plt s)"
  using assms by (auto simp: run_unfold split: sum.splits)

text \<open>
  Claim C4 fails on the code: line 307 calls \<^verbatim>\<open>plt.show()\<close> before the flag is
  read, so every call that returns has shown the figure once when \<open>show_plot\<close> is unset
  and twice when it is set (and has called \<^verbatim>\<open>plt.plot()\<close> once when it is unset).
\<close>

theorem shown_once_more_than_asked:
  assumes "plot_trading_history ext a p = Inr (res, p')"
  shows "show_calls p' = show_calls p + (if show_plot a then 2 else 1) \<and>
         plot_calls p' = plot_calls p + (if show_plot a then 0 else 1)"
proof -
  from assms obtain u and s :: loop_state and lines r where
    l: "plot_loop ext a u 0 0 (all_plots ext a)
       \<lparr>plt = snd (subplots (width a) (height a) (p\<lparr>fonts_set := True\<rparr>)),
        all_axes = [], use_ax = None, hex_color = PLOT_COLORS ext ''blue''\<rparr> = Inr s"
    and p': "p' = decorate ext a 0 lines (plt s)"
    by (rule run_parts)
  from plot_loop_counts [OF l] have "show_calls (plt s) = show_calls p" "plot_calls (plt s) = plot_calls p"
    by (simp_all add: subplots_def)
  then show ?thesis
    by (simp add: p' decorate_def Let_def plt_show_def plt_plot_def upd_axes_def)
qed

theorem shown_once_more_than_asked_witness:
  "map_option show_calls
     (final_pyplot (plot_trading_history sample_ext (sample_args\<lparr>show_plot := False\<rparr>) fresh_pyplot))
   = Some 1 \<and>
   map_option show_calls
     (final_pyplot (plot_trading_history sample_ext (sample_args\<lparr>show_plot := True\<rparr>) fresh_pyplot))
   = Some 2"
proof -
  obtain r0 p0 where
    run0: "plot_trading_history sample_ext (sample_args\<lparr>show_plot := False\<rparr>) fresh_pyplot = Inr (r0, p0)"
    by (cases "plot_trading_history sample_ext (sample_args\<lparr>show_plot := False\<rparr>) fresh_pyplot")
       (simp_all add: run_defs str_nat.simps)
  obtain r1 p1 where
    run1: "plot_trading_history sample_ext (sample_args\<lparr>show_plot := True\<rparr>) fresh_pyplot = Inr (r1, p1)"
    by (cases "plot_trading_history sample_ext (sample_args\<lparr>show_plot := True\<rparr>) fresh_pyplot")
       (simp_all add: run_defs str_nat.simps)
  have z: "show_calls fresh_pyplot = 0"
    by (simp add: fresh_pyplot_def)
  from shown_once_more_than_asked [OF run0] shown_once_more_than_asked [OF run1] show ?thesis
    by (simp add: run0 run1 final_pyplot_def z)
qed

section \<open>The axis slots of the result\<close>

lemma slot_names_length: "length (slot_names a) \<le> 4"
  by (simp add: slot_names_def split: option.splits)

lemma collect_lines_two:
  "collect_lines p (Some w) 0 [0 ..< k] ([], rec_init) = Inr (lines, r) \<Longrightarrow> k \<le> 4 \<Longrightarrow>
     map r [''ax1'', ''ax2'', ''ax3'', ''ax4''] =
       replicate k (Some (Some (AxesHandle w))) @ replicate (4 - k) (Some None)"
proof -
  assume c: "collect_lines p (Some w) 0 [0 ..< k] ([], rec_init) = Inr (lines, r)" and "k \<le> 4"
  then consider "k = 0" | "k = Suc 0" | "k = Suc (Suc 0)" | "k = Suc (Suc (Suc 0))"
    | "k = Suc (Suc (Suc (Suc 0)))"
    by linarith
  then show ?thesis
  proof cases
    case 1
    with c show ?thesis by (auto simp: rec_init_def numeral_eq_Suc)
  next
    case 2
    with c show ?thesis
      by (auto simp: rec_init_def ax_key_def str_nat.simps numeral_eq_Suc)
  next
    case 3
    with c show ?thesis
      by (auto simp: rec_init_def ax_key_def str_nat.simps numeral_eq_Suc)
  next
    case 4
    with c show ?thesis
      by (auto simp: rec_init_def ax_key_def str_nat.simps numeral_eq_Suc)
  next
    case 5
    with c show ?thesis
      by (auto simp: rec_init_def ax_key_def str_nat.simps numeral_eq_Suc)
  qed
qed

text \<open>
  Claim C3 fails on the code: line 281 stores \<open>use_ax\<close>, the last axis the plot loop
  made, not \<open>cur_ax\<close>. With \<open>k\<close> series selected the slots \<open>ax1\<close> to \<open>axk\<close> are set and
  the others are None, as the claim says, but every set slot holds the handle \<open>k - 1\<close> of
  the last axis; with two series no slot holds the primary axis (handle 0).
\<close>

theorem slots_hold_last_axis:
  assumes "plot_trading_history ext a p = Inr (res, p')"
  shows "map (rec res) [''ax1'', ''ax2'', ''ax3'', ''ax4''] =
           replicate (length (slot_names a)) (Some (Some (AxesHandle (length (slot_names a) - 1))))
           @ replicate (4 - length (slot_names a)) (Some None)"
proof -
  let ?k = "length (slot_names a)"
  from assms obtain u and s :: loop_state and lines r where
    l: "plot_loop ext a u 0 0 (all_plots ext a)
       \<lparr>plt = snd (subplots (width a) (height a) (p\<lparr>fonts_set := True\<rparr>)),
        all_axes = [], use_ax = None, hex_color = PLOT_COLORS ext ''blue''\<rparr> = Inr s"
    and c: "collect_lines (plt s) (use_ax s) 0 (all_axes s) ([], rec_init) = Inr (lines, r)"
    and res: "res = build_result SUCCESS None (r(''fig'' \<mapsto> Some (FigureHandle (fig_count (plt s)))))"
    by (rule run_parts)
  have k: "length (all_plots ext a) = ?k"
    using all_plots_columns [of ext a] by (metis length_map)
  have e: "all_plots ext a = [] \<longleftrightarrow> ?k = 0"
    using k by auto
  from whole_loop [OF l] have ax: "all_axes s = [0 ..< ?k]"
    and us: "use_ax s = (if ?k = 0 then None else Some (?k - 1))"
    by (simp_all add: subplots_def k e)
  have "map r [''ax1'', ''ax2'', ''ax3'', ''ax4''] =
          replicate ?k (Some (Some (AxesHandle (?k - 1)))) @ replicate (4 - ?k) (Some None)"
  proof (cases "?k = 0")
    case True
    with c ax show ?thesis
      by (auto simp: rec_init_def numeral_eq_Suc)
  next
    case False
    with c ax us have "collect_lines (plt s) (Some (?k - 1)) 0 [0 ..< ?k] ([], rec_init) = Inr (lines, r)"
      by simp
    from collect_lines_two [OF this slot_names_length] show ?thesis .
  qed
  then show ?thesis
    by (simp add: res build_result_def)
qed

theorem slots_hold_last_axis_witness:
  "map_option (\<lambda>r. map (rec r) [''ax1'', ''ax2'', ''ax3'', ''ax4''])
     (returned (plot_trading_history sample_ext sample_twin fresh_pyplot))
   = Some [Some (Some (AxesHandle 1)), Some (Some (AxesHandle 1)), Some None, Some None]"
proof -
  obtain res p' where
    run: "plot_trading_history sample_ext sample_twin fresh_pyplot = Inr (res, p')"
    by (cases "plot_trading_history sample_ext sample_twin fresh_pyplot")
       (simp_all add: run_defs str_nat.simps)
  have s: "slot_names sample_twin = [''equity'', ''cash'']"
    by (simp add: slot_names_def sample_twin_def sample_args_def)
  from slots_hold_last_axis [OF run] show ?thesis
    by (simp add: run returned_def s numeral_eq_Suc)
qed

section \<open>The legend\<close>

lemma collect_lines_lines:
  "collect_lines p w idx axs (ls, r) = Inr (ls', r') \<Longrightarrow>
     ls' = ls @ concat (map (\<lambda>c. ax_lines (fig_axes p ! c)) axs)"
proof (induction axs arbitrary: idx ls r)
  case Nil
  then show ?case by simp
next
  case (Cons x axs)
  show ?case
  proof (cases w)
    case None
    with Cons.prems show ?thesis by simp
  next
    case (Some v)
    from Cons.prems have
      "collect_lines p (Some v) (Suc idx) axs
         (ls @ ax_lines (fig_axes p ! x), r(ax_key idx \<mapsto> Some (AxesHandle v))) = Inr (ls', r')"
      unfolding Some by (simp only: collect_lines.simps option.case)
    then have "ls' = (ls @ ax_lines (fig_axes p ! x)) @ concat (map (\<lambda>c. ax_lines (fig_axes p ! c)) axs)"
      using Cons.IH unfolding Some by blast
    then show ?thesis by simp
  qed
qed

lemma map_over_indices: "map (\<lambda>c. f (xs ! c)) [0 ..< length xs] = map f xs"
  by (rule nth_equalityI) simp_all

lemma labels_draw: "map get_label (draw d x c) = filter (\<lambda>y. y \<noteq> x) (columns d)"
  by (simp add: draw_def comp_def)

lemma ax_lines_node_axis:
  "linestyle a = ''-'' \<Longrightarrow>
     ax_lines (node_axis ext a u n) = draw (project u [date_col a, column n]) (date_col a) (color n)"
  by (simp add: node_axis_def plot_on_def autoscale_def add_artists_def new_axes_def)

lemma ax_lines_composed:
  "linestyle a = ''-'' \<Longrightarrow> nodes \<noteq> [] \<Longrightarrow>
     map ax_lines (composed ext a u nodes) =
       map (\<lambda>n. draw (project u [date_col a, column n]) (date_col a) (color n)) nodes"
  by (cases nodes) (simp_all add: primary_axis_def styled_twin_def ax_lines_node_axis)

lemma node_ok_labels:
  assumes "node_ok a u n"
  shows "filter (\<lambda>y. y \<noteq> date_col a) (columns (project u [date_col a, column n])) =
           filter (\<lambda>y. y = column n) (columns u) \<and> column n \<in> set (columns u)"
proof -
  have ne: "column n \<noteq> date_col a"
  proof
    assume e: "column n = date_col a"
    with assms have "length (filter (\<lambda>c'. c' = date_col a) (columns u)) +
                     length (filter (\<lambda>c'. c' = date_col a) (columns u)) = 1"
      by (simp add: node_ok_def project_def)
    then show False by presburger
  qed
  have "filter (\<lambda>y. y \<noteq> date_col a) (filter (\<lambda>c'. c' = date_col a) (columns u)) = []"
    by (simp add: filter_empty_conv)
  moreover have "filter (\<lambda>y. y \<noteq> date_col a) (filter (\<lambda>c'. c' = column n) (columns u)) =
                 filter (\<lambda>c'. c' = column n) (columns u)"
    using ne by (auto intro: filter_cong)
  ultimately show ?thesis
    using assms by (simp add: project_def node_ok_def)
qed

lemma count_list_filter_eq:
  "count_list (filter (\<lambda>y. y = c') xs) c = (if c = c' then count_list xs c else 0)"
  by (induction xs) auto

lemma count_list_append [simp]: "count_list (xs @ ys) c = count_list xs c + count_list ys c"
  by (induction xs) auto

lemma count_list_pos: "c \<in> set xs \<Longrightarrow> 1 \<le> count_list xs c"
  by (induction xs) auto

lemma count_labels:
  "list_all (\<lambda>n. column n \<in> set cols) nodes \<Longrightarrow>
     count_list (map column nodes) c
       \<le> count_list (concat (map (\<lambda>n. filter (\<lambda>y. y = column n) cols) nodes)) c"
proof (induction nodes)
  case Nil
  then show ?case by simp
next
  case (Cons n nodes)
  then have n: "column n \<in> set cols" and ih: "count_list (map column nodes) c
       \<le> count_list (concat (map (\<lambda>n. filter (\<lambda>y. y = column n) cols) nodes)) c"
    by simp_all
  show ?case
  proof (cases "column n = c")
    case True
    with count_list_pos [OF n] ih show ?thesis
      by (simp add: count_list_filter_eq)
  next
    case False
    with ih show ?thesis
      by (simp add: count_list_filter_eq)
  qed
qed

lemma distinct_count_le: "distinct xs \<Longrightarrow> count_list xs c \<le> 1"
  by (induction xs) (auto simp: count_list_0_iff)

lemma repeated_count: "\<not> distinct xs \<Longrightarrow> \<exists>c. 2 \<le> count_list xs c"
proof (induction xs)
  case Nil
  then show ?case by simp
next
  case (Cons x xs)
  show ?case
  proof (cases "x \<in> set xs")
    case True
    from count_list_pos [OF this] have "2 \<le> count_list (x # xs) x"
      by simp
    then show ?thesis by blast
  next
    case False
    with Cons.prems have "\<not> distinct xs" by simp
    from Cons.IH [OF this] obtain c where "2 \<le> count_list xs c" by blast
    then have "2 \<le> count_list (x # xs) c" by simp
    then show ?thesis by blast
  qed
qed

lemma decorate_legend:
  assumes "fig_axes p \<noteq> []"
  shows "ax_legend (fig_axes (decorate ext a 0 lines p) ! 0) = Some (lines, map get_label lines)"
proof -
  let ?p1 = "upd_axes 0 (\<lambda>A. A\<lparr>ax_legend := Some (lines, map get_label lines)\<rparr>) p"
  have 1: "ax_legend (fig_axes ?p1 ! 0) = Some (lines, map get_label lines)"
    using assms by (simp add: upd_axes_def)
  have k: "ax_legend (fig_axes (upd_axes j (\<lambda>A. A\<lparr>ax_xlabel := xl, ax_ylabel := yl\<rparr>) q) ! 0)
             = ax_legend (fig_axes q ! 0)" for j xl yl q
    by (rule upd_axes_keeps [where g = ax_legend]) simp
  have t: "ax_legend (fig_axes (upd_axes j (\<lambda>A. A\<lparr>ax_title := tt\<rparr>) q) ! 0)
             = ax_legend (fig_axes q ! 0)" for j tt q
    by (rule upd_axes_keeps [where g = ax_legend]) simp
  have "fig_axes (decorate ext a 0 lines p) =
          fig_axes (upd_axes 0 (\<lambda>A. A\<lparr>ax_title := title a\<rparr>)
            (upd_axes (gca (?p1\<lparr>autofmt_xdate := True\<rparr>))
               (\<lambda>A. A\<lparr>ax_xlabel := xlabel a, ax_ylabel := ylabel a\<rparr>)
               (?p1\<lparr>autofmt_xdate := True\<rparr>)))"
    by (simp add: decorate_def Let_def plt_show_def plt_plot_def upd_axes_def)
  then show ?thesis
    by (simp only: t k) (simp add: upd_axes_def assms)
qed

text \<open>The loop of lines 272 to 276 itself removes every repeated label.\<close>

lemma dedup_labels_distinct:
  "distinct nl \<Longrightarrow> distinct (fst (dedup_labels xs (nl, nh)))"
  by (induction xs "(nl, nh)" arbitrary: nl nh rule: dedup_labels.induct) auto

text \<open>
  Claim C2 fails on the code: \<open>newLabels\<close> and \<open>newHandles\<close> are computed and never
  read, and the legend of the primary axis is built from \<open>lines\<close>, the lines of all
  axes. For a line plot the legend has every selected name at least as often as it was
  selected, so a name given in two slots is twice in the legend.
\<close>

theorem legend_labels_not_deduplicated:
  assumes "plot_trading_history ext a p = Inr (res, p')" and "linestyle a = ''-''"
  shows "\<exists>lines. ax_legend (fig_axes p' ! 0) = Some (lines, map get_label lines) \<and>
           (\<forall>c. count_list (slot_names a) c \<le> count_list (map get_label lines) c) \<and>
           (\<not> distinct (slot_names a) \<longrightarrow> \<not> distinct (map get_label lines))"
proof -
  from assms(1) obtain u and s :: loop_state and lines r where
    l: "plot_loop ext a u 0 0 (all_plots ext a)
       \<lparr>plt = snd (subplots (width a) (height a) (p\<lparr>fonts_set := True\<rparr>)),
        all_axes = [], use_ax = None, hex_color = PLOT_COLORS ext ''blue''\<rparr> = Inr s"
    and c: "collect_lines (plt s) (use_ax s) 0 (all_axes s) ([], rec_init) = Inr (lines, r)"
    and p': "p' = decorate ext a 0 lines (plt s)"
    by (rule run_parts)
  let ?nodes = "all_plots ext a"
  from whole_loop [OF l] have ax: "fig_axes (plt s) = composed ext a u ?nodes"
    and aa: "all_axes s = [0 ..< length ?nodes]"
    by (simp_all add: subplots_def)
  from l plot_loop_succeeds_iff have "loop_ok ext a u ?nodes"
    by blast
  then have ok: "list_all (node_ok a u) ?nodes"
    by (rule loop_ok_nodes)
  have ne: "fig_axes (plt s) \<noteq> []"
    by (cases ?nodes) (simp_all add: ax)
  have lab: "map get_label lines =
               concat (map (\<lambda>n. filter (\<lambda>y. y = column n) (columns u)) ?nodes)"
  proof (cases "?nodes = []")
    case True
    with c aa show ?thesis by simp
  next
    case False
    then have len: "length ?nodes = length (composed ext a u ?nodes)"
      by (simp add: composed_length)
    from collect_lines_lines [OF c]
    have "lines = concat (map (\<lambda>c. ax_lines (composed ext a u ?nodes ! c))
                           [0 ..< length (composed ext a u ?nodes)])"
      by (simp add: aa ax len [symmetric])
    then have "lines = concat (map ax_lines (composed ext a u ?nodes))"
      by (simp only: map_over_indices)
    then have "map get_label lines =
                 concat (map (\<lambda>n. filter (\<lambda>y. y \<noteq> date_col a)
                                      (columns (project u [date_col a, column n]))) ?nodes)"
      by (simp add: ax_lines_composed [OF assms(2) False] map_concat comp_def labels_draw)
    also have "\<dots> = concat (map (\<lambda>n. filter (\<lambda>y. y = column n) (columns u)) ?nodes)"
    proof -
      have "filter (\<lambda>y. y \<noteq> date_col a) (columns (project u [date_col a, column n])) =
              filter (\<lambda>y. y = column n) (columns u)" if "n \<in> set ?nodes" for n
        using ok that node_ok_labels [of a u n] by (simp add: list_all_iff)
      then have "map (\<lambda>n. filter (\<lambda>y. y \<noteq> date_col a)
                                (columns (project u [date_col a, column n]))) ?nodes =
                 map (\<lambda>n. filter (\<lambda>y. y = column n) (columns u)) ?nodes"
        by (intro map_cong) simp_all
      then show ?thesis by (simp only:)
    qed
    finally show ?thesis .
  qed
  have cols: "list_all (\<lambda>n. column n \<in> set (columns u)) ?nodes"
    using ok by (auto simp: list_all_iff node_ok_def)
  have cnt: "count_list (slot_names a) c \<le> count_list (map get_label lines) c" for c
    using count_labels [OF cols, of c] by (simp add: lab all_plots_columns)
  have "\<not> distinct (map get_label lines)" if "\<not> distinct (slot_names a)"
  proof -
    from repeated_count [OF that] obtain c where "2 \<le> count_list (slot_names a) c"
      by blast
    with cnt [of c] have "\<not> count_list (map get_label lines) c \<le> 1"
      by linarith
    then show ?thesis
      using distinct_count_le [of "map get_label lines" c] by blast
  qed
  with cnt decorate_legend [OF ne, of ext a lines] p' show ?thesis
    by blast
qed

theorem legend_labels_not_deduplicated_witness:
  "\<exists>res p' lines.
      plot_trading_history sample_ext (sample_args\<lparr>blue := Some ''equity''\<rparr>) fresh_pyplot = Inr (res, p') \<and>
      linestyle (sample_args\<lparr>blue := Some ''equity''\<rparr>) = ''-'' \<and>
      ax_legend (fig_axes p' ! 0) = Some (lines, [''equity'', ''equity'']) \<and>
      \<not> distinct (map get_label lines)"
proof -
  obtain res p' where
    run: "plot_trading_history sample_ext (sample_args\<lparr>blue := Some ''equity''\<rparr>) fresh_pyplot = Inr (res, p')"
    and lab: "map_option snd (ax_legend (fig_axes p' ! 0)) = Some [''equity'', ''equity'']"
    by (simp add: run_defs str_nat.simps)
  have ls: "linestyle (sample_args\<lparr>blue := Some ''equity''\<rparr>) = ''-''"
    by (simp add: sample_args_def)
  have nd: "\<not> distinct (slot_names (sample_args\<lparr>blue := Some ''equity''\<rparr>))"
    by (simp add: slot_names_def sample_args_def)
  from legend_labels_not_deduplicated [OF run ls] nd obtain lines where
    "ax_legend (fig_axes p' ! 0) = Some (lines, map get_label lines)"
    and "\<not> distinct (map get_label lines)"
    by blast
  with run ls lab show ?thesis
    by auto
qed

end
